theory Spec2Isabelle
  imports Main "HOL-Library.AList" "HOL-Library.Option_ord" "HOL-Library.Product_Lexorder"
begin

section \<open>Errors, paths and the version model\<close>

text \<open>
  The exceptions the code raises or lets through. \<open>OtherError\<close> stands for any
  exception of a collaborator that is neither a \<open>ValueError\<close> nor an
  \<open>InvalidPythonVersion\<close>.
\<close>

datatype error = TypeError | ValueError | InvalidPythonVersion | KeyError
  | UnboundLocalError | AttributeError | OtherError

text \<open>
  A path is its normalised POSIX string (what \<open>as_posix()\<close> returns). \<open>path_name\<close> is
  pathlib's \<open>.name\<close> (the last component) and \<open>path_parent\<close> is \<open>.parent\<close>.
\<close>

type_synonym path = string

definition path_name :: "path \<Rightarrow> string" where
  "path_name p = rev (takeWhile (\<lambda>c. c \<noteq> CHR ''/'') (rev p))"

definition path_parent :: "path \<Rightarrow> path" where
  "path_parent p = rev (drop 1 (dropWhile (\<lambda>c. c \<noteq> CHR ''/'') (rev p)))"

definition path_join :: "path \<Rightarrow> string \<Rightarrow> path" where
  "path_join p c = p @ ''/'' @ c"

text \<open>
  The attrs class \<open>PythonVersion\<close> with its declared field types. \<open>version\<close> holds a
  \<open>packaging.version.Version\<close>, represented by its text. \<open>comes_from\<close> is a
  back-reference to a \<open>PathEntry\<close>, of which this class reads only the path.
\<close>

record PythonVersion =
  major :: int
  minor :: "int option"
  patch :: "int option"
  is_prerelease :: bool
  is_postrelease :: bool
  is_devrelease :: bool
  is_debug :: bool
  version :: "string option"
  architecture :: "string option"
  comes_from :: "path option"
  executable :: "string option"
  company :: "string option"
  name :: "string option"

text \<open>The attrs defaults: \<open>major = 0\<close>, flags \<open>False\<close>, everything else \<open>None\<close>.\<close>

definition default_version :: PythonVersion where
  "default_version = \<lparr> major = 0, minor = None, patch = None, is_prerelease = False,
     is_postrelease = False, is_devrelease = False, is_debug = False, version = None,
     architecture = None, comes_from = None, executable = None, company = None,
     name = None \<rparr>"

text \<open>
  A dictionary of version metadata, as \<open>parse\<close> returns it and as \<open>from_path\<close> and
  \<open>from_windows_launcher\<close> extend it: for every key, \<open>None\<close> when the key is absent and
  \<open>Some v\<close> when it is present with value \<open>v\<close> (which may itself be Python's \<open>None\<close>).
  The keys are the attribute names of \<open>PythonVersion\<close>.
\<close>

record vdict =
  k_major :: "int option"
  k_minor :: "int option option"
  k_patch :: "int option option"
  k_is_prerelease :: "bool option"
  k_is_postrelease :: "bool option"
  k_is_devrelease :: "bool option"
  k_is_debug :: "bool option"
  k_version :: "string option option"
  k_architecture :: "string option option"
  k_comes_from :: "path option option"
  k_executable :: "string option option"
  k_company :: "string option option"
  k_name :: "string option option"

definition empty_dict :: vdict where
  "empty_dict = \<lparr> k_major = None, k_minor = None, k_patch = None, k_is_prerelease = None,
     k_is_postrelease = None, k_is_devrelease = None, k_is_debug = None, k_version = None,
     k_architecture = None, k_comes_from = None, k_executable = None, k_company = None,
     k_name = None \<rparr>"

text \<open>\<open>d.get(key)\<close>: Python's \<open>None\<close> for an absent key.\<close>

definition dict_get :: "'a option option \<Rightarrow> 'a option" where
  "dict_get e = (case e of None \<Rightarrow> None | Some v \<Rightarrow> v)"

text \<open>
  The loop \<open>for k in d.keys(): ... setattr(self, k, d[k])\<close> of \<open>__getattribute__\<close> and
  \<open>update_metadata\<close>: every key of the dictionary names an attribute, so every
  present key overwrites its attribute. \<open>cls(**d)\<close> is the same on the defaults.
\<close>

definition set_or :: "'a option \<Rightarrow> 'a \<Rightarrow> 'a" where
  "set_or e old = (case e of None \<Rightarrow> old | Some v \<Rightarrow> v)"

definition update_metadata :: "vdict \<Rightarrow> PythonVersion \<Rightarrow> PythonVersion" where
  "update_metadata d self = \<lparr>
     major = set_or (k_major d) (major self),
     minor = set_or (k_minor d) (minor self),
     patch = set_or (k_patch d) (patch self),
     is_prerelease = set_or (k_is_prerelease d) (is_prerelease self),
     is_postrelease = set_or (k_is_postrelease d) (is_postrelease self),
     is_devrelease = set_or (k_is_devrelease d) (is_devrelease self),
     is_debug = set_or (k_is_debug d) (is_debug self),
     version = set_or (k_version d) (version self),
     architecture = set_or (k_architecture d) (architecture self),
     comes_from = set_or (k_comes_from d) (comes_from self),
     executable = set_or (k_executable d) (executable self),
     company = set_or (k_company d) (company self),
     name = set_or (k_name d) (name self) \<rparr>"

definition construct :: "vdict \<Rightarrow> PythonVersion" where
  "construct d = update_metadata d default_version"

section \<open>The collaborators and the process-wide caches\<close>

text \<open>
  What the version model consumes from \<open>utils\<close>, \<open>environment\<close> and \<open>platform\<close>, none of
  which is part of the modelled code: they are parameters.
  \<open>get_python_version\<close> runs the executable and returns its version text, Python's
  \<open>None\<close>, or raises; \<open>parse_python_version\<close> returns a fresh dictionary or raises.
\<close>

record env =
  get_python_version :: "string \<Rightarrow> error + string option"
  parse_python_version :: "string \<Rightarrow> error + vdict"
  looks_like_python :: "string \<Rightarrow> bool"
  guess_company :: "string \<Rightarrow> string option"
  IGNORE_UNSUPPORTED :: bool
  platform_architecture :: "string \<Rightarrow> string"
  sys_executable :: string
  absolute :: "path \<Rightarrow> path"

text \<open>
  The state shared by all instances: the dictionary objects by address (the
  \<open>lru_cache\<close>s hand out the object they hold, and callers update it in place), the
  two \<open>lru_cache(maxsize=1024)\<close> tables, most recently used first, and the log of the
  executables that were run.
\<close>

record world =
  heap :: "vdict list"
  parse_cache :: "(string \<times> nat) list"
  exe_cache :: "(string \<times> nat) list"
  probes :: "string list"

definition empty_world :: world where
  "empty_world = \<lparr> heap = [], parse_cache = [], exe_cache = [], probes = [] \<rparr>"

definition lru_hit :: "string \<Rightarrow> nat \<Rightarrow> (string \<times> nat) list \<Rightarrow> (string \<times> nat) list" where
  "lru_hit k a c = (k, a) # filter (\<lambda>e. fst e \<noteq> k) c"

definition lru_miss :: "string \<Rightarrow> nat \<Rightarrow> (string \<times> nat) list \<Rightarrow> (string \<times> nat) list" where
  "lru_miss k a c = take 1024 ((k, a) # c)"

text \<open>
  \<open>PythonVersion.parse\<close>. The argument is a string, so the \<open>TypeError\<close> of a \<open>None\<close>
  argument has no case. A call that raises leaves the cache as it was.
\<close>

definition parse :: "env \<Rightarrow> world \<Rightarrow> string \<Rightarrow> (error + nat) \<times> world" where
  "parse E w v =
     (case map_of (parse_cache w) v of
        Some a \<Rightarrow> (Inr a, w\<lparr>parse_cache := lru_hit v a (parse_cache w)\<rparr>)
      | None \<Rightarrow>
         (case parse_python_version E v of
            Inl e \<Rightarrow> (Inl e, w)
          | Inr version_dict \<Rightarrow>
              if version_dict = empty_dict then (Inl ValueError, w)
              else (Inr (length (heap w)),
                    w\<lparr>heap := heap w @ [version_dict],
                      parse_cache := lru_miss v (length (heap w)) (parse_cache w)\<rparr>)))"

text \<open>\<open>str.strip()\<close> on the whitespace of ASCII.\<close>

definition is_space :: "char \<Rightarrow> bool" where
  "is_space c = (c \<in> set [CHR '' '', CHR 0x09, CHR 0x0A, CHR 0x0B, CHR 0x0C, CHR 0x0D,
     CHR 0x1C, CHR 0x1D, CHR 0x1E, CHR 0x1F])"

definition strip :: "string \<Rightarrow> string" where
  "strip s = rev (dropWhile is_space (rev (dropWhile is_space s)))"

text \<open>
  \<open>PythonVersion.parse_executable\<close>: any exception of the probe becomes
  \<open>ValueError\<close>, as does a \<open>None\<close> result; the dictionary returned is the object
  \<open>parse\<close> returned.
\<close>

definition parse_executable :: "env \<Rightarrow> world \<Rightarrow> string \<Rightarrow> (error + nat) \<times> world" where
  "parse_executable E w p =
     (case map_of (exe_cache w) p of
        Some a \<Rightarrow> (Inr a, w\<lparr>exe_cache := lru_hit p a (exe_cache w)\<rparr>)
      | None \<Rightarrow>
         (let w1 = w\<lparr>probes := probes w @ [p]\<rparr> in
          case get_python_version E p of
            Inl e \<Rightarrow> (Inl ValueError, w1)
          | Inr None \<Rightarrow> (Inl ValueError, w1)
          | Inr (Some result_version) \<Rightarrow>
             (case parse E w1 (strip result_version) of
                (Inl e, w2) \<Rightarrow> (Inl e, w2)
              | (Inr a, w2) \<Rightarrow> (Inr a, w2\<lparr>exe_cache := lru_miss p a (exe_cache w2)\<rparr>))))"

section \<open>Attribute reads, the rank key and the dedup key\<close>

type_synonym 'a result = "(error + 'a) \<times> world"

definition then_do :: "'a result \<Rightarrow> ('a \<Rightarrow> world \<Rightarrow> 'b result) \<Rightarrow> 'b result" where
  "then_do r f = (case r of (Inl e, w) \<Rightarrow> (Inl e, w) | (Inr x, w) \<Rightarrow> f x w)"

text \<open>Truthiness of an optional string: neither \<open>None\<close> nor empty.\<close>

definition truthy_str :: "string option \<Rightarrow> bool" where
  "truthy_str s = (case s of None \<Rightarrow> False | Some t \<Rightarrow> t \<noteq> [])"

datatype lazy_key = Minor | Patch

definition stored :: "lazy_key \<Rightarrow> PythonVersion \<Rightarrow> int option" where
  "stored key self = (case key of Minor \<Rightarrow> minor self | Patch \<Rightarrow> patch self)"

definition get_key :: "lazy_key \<Rightarrow> vdict \<Rightarrow> int option" where
  "get_key key d = (case key of Minor \<Rightarrow> dict_get (k_minor d) | Patch \<Rightarrow> dict_get (k_patch d))"

text \<open>
  \<open>PythonVersion.__getattribute__\<close> for the keys \<open>minor\<close> and \<open>patch\<close>; every other
  attribute is read as stored. The result is the value read and the instance after
  the read.
\<close>

definition getattribute ::
  "env \<Rightarrow> lazy_key \<Rightarrow> PythonVersion \<Rightarrow> world \<Rightarrow> (int option \<times> PythonVersion) result" where
  "getattribute E key self w =
     (let result = stored key self in
      if result = None then
        (let executable =
               (if truthy_str (executable self) then executable self
                else if comes_from self \<noteq> None then comes_from self
                else None)
         in case executable of
              None \<Rightarrow> (Inr (result, self), w)
            | Some exe \<Rightarrow>
                then_do (parse_executable E w exe) (\<lambda>a w1.
                  let instance_dict = heap w1 ! a
                  in (Inr (get_key key instance_dict, update_metadata instance_dict self), w1)))
      else (Inr (result, self), w))"

text \<open>
  The rank key \<open>(company_sort, major, minor, patch or 0, release_sort)\<close>. The property
  reads \<open>company\<close> and the flags first, then \<open>major\<close>, \<open>minor\<close> and \<open>patch\<close> in this
  order; \<open>self.patch if self.patch else 0\<close> reads \<open>patch\<close> a second time only when the
  first read was a non-zero number, which the second read returns again.
\<close>

type_synonym sort_key = "int \<times> int \<times> int option \<times> int \<times> int"

definition company_sort :: "PythonVersion \<Rightarrow> int" where
  "company_sort self = (if truthy_str (company self) \<and> company self = Some ''PythonCore'' then 1 else 0)"

definition release_sort :: "PythonVersion \<Rightarrow> int" where
  "release_sort self =
     (if is_postrelease self then 3
      else if is_prerelease self then 1
      else if is_devrelease self then 0
      else if is_debug self then 1
      else 2)"

definition patch_or_0 :: "int option \<Rightarrow> int" where
  "patch_or_0 p = (case p of None \<Rightarrow> 0 | Some n \<Rightarrow> n)"

definition version_sort :: "env \<Rightarrow> PythonVersion \<Rightarrow> world \<Rightarrow> (sort_key \<times> PythonVersion) result" where
  "version_sort E self w =
     (let cs = company_sort self; rs = release_sort self; mj = major self in
      then_do (getattribute E Minor self w) (\<lambda>(mn, self1) w1.
      then_do (getattribute E Patch self1 w1) (\<lambda>(pt, self2) w2.
        (Inr ((cs, mj, mn, patch_or_0 pt, rs), self2), w2))))"

text \<open>
  Python's \<open><\<close> on two rank keys: the first position where the tuples differ decides,
  and comparing \<open>None\<close> with a number there raises \<open>TypeError\<close>.
\<close>

definition key_lt :: "sort_key \<Rightarrow> sort_key \<Rightarrow> error + bool" where
  "key_lt a b =
     (case (a, b) of ((c1, m1, n1, p1, r1), (c2, m2, n2, p2, r2)) \<Rightarrow>
        if c1 \<noteq> c2 then Inr (c1 < c2)
        else if m1 \<noteq> m2 then Inr (m1 < m2)
        else if n1 \<noteq> n2 then
          (case (n1, n2) of (Some x, Some y) \<Rightarrow> Inr (x < y) | _ \<Rightarrow> Inl TypeError)
        else if p1 \<noteq> p2 then Inr (p1 < p2)
        else Inr (r1 < r2))"

text \<open>The dedup key \<open>version_tuple\<close>, likewise through the lazy reads.\<close>

type_synonym dedup_key = "int \<times> int option \<times> int option \<times> bool \<times> bool \<times> bool"

definition version_tuple :: "env \<Rightarrow> PythonVersion \<Rightarrow> world \<Rightarrow> (dedup_key \<times> PythonVersion) result" where
  "version_tuple E self w =
     (let mj = major self in
      then_do (getattribute E Minor self w) (\<lambda>(mn, self1) w1.
      then_do (getattribute E Patch self1 w1) (\<lambda>(pt, self2) w2.
        (Inr ((mj, mn, pt, is_prerelease self2, is_devrelease self2, is_debug self2), self2), w2))))"

section \<open>Architecture and the predicate\<close>

definition get_architecture :: "env \<Rightarrow> PythonVersion \<Rightarrow> string \<times> PythonVersion" where
  "get_architecture E self =
     (if truthy_str (architecture self) then (the (architecture self), self)
      else
        (let arch =
               (case comes_from self of
                  Some p \<Rightarrow> platform_architecture E p
                | None \<Rightarrow>
                   (case executable self of
                      Some x \<Rightarrow> platform_architecture E x
                    | None \<Rightarrow> platform_architecture E (sys_executable E)))
         in (arch, self\<lparr>architecture := Some arch\<rparr>)))"

definition isdigit :: "string \<Rightarrow> bool" where
  "isdigit s = (s \<noteq> [] \<and> (\<forall>c \<in> set s. c \<in> set ''0123456789''))"

definition startswith :: "string \<Rightarrow> string \<Rightarrow> bool" where
  "startswith s p = (take (length p) s = p)"

text \<open>The arguments of \<open>matches\<close>, each \<open>None\<close> or a value.\<close>

record query =
  q_major :: "int option"
  q_minor :: "int option"
  q_patch :: "int option"
  q_pre :: "bool option"
  q_dev :: "bool option"
  q_arch :: "string option"
  q_debug :: "bool option"
  q_name :: "string option"

definition lazy_eq ::
  "env \<Rightarrow> lazy_key \<Rightarrow> int option \<Rightarrow> PythonVersion \<Rightarrow> world \<Rightarrow> (bool \<times> PythonVersion) result" where
  "lazy_eq E key wanted self w =
     (if wanted = None then (Inr (True, self), w)
      else then_do (getattribute E key self w) (\<lambda>(v, self1) w1. (Inr (v = wanted, self1), w1)))"

definition name_matches :: "string option \<Rightarrow> string option \<Rightarrow> bool" where
  "name_matches python_name own =
     (python_name = None \<or>
      (truthy_str python_name \<and> truthy_str own) \<and>
      (own = python_name \<or> startswith (the own) (the python_name)))"

text \<open>
  \<open>PythonVersion.matches\<close>. \<open>own_arch\<close> is bound only when \<open>arch\<close> is truthy; the
  conjunction is evaluated left to right and stops at the first false conjunct.
\<close>

definition matches :: "env \<Rightarrow> PythonVersion \<Rightarrow> world \<Rightarrow> query \<Rightarrow> (bool \<times> PythonVersion) result" where
  "matches E self w q =
     (case (if truthy_str (q_arch q)
            then (let (a, s) = get_architecture E self
                  in (Some a,
                      (if isdigit (the (q_arch q)) then Some (the (q_arch q) @ ''bit'') else q_arch q),
                      s))
            else (None, q_arch q, self)) of
        (own_arch, arch, self0) \<Rightarrow>
          if \<not> (q_major q = None \<or> Some (major self0) = q_major q) then (Inr (False, self0), w)
          else
            then_do (lazy_eq E Minor (q_minor q) self0 w) (\<lambda>(ok1, self1) w1.
              if \<not> ok1 then (Inr (False, self1), w1)
              else
                then_do (lazy_eq E Patch (q_patch q) self1 w1) (\<lambda>(ok2, self2) w2.
                  if \<not> ok2 then (Inr (False, self2), w2)
                  else if \<not> (q_pre q = None \<or> Some (is_prerelease self2) = q_pre q)
                    then (Inr (False, self2), w2)
                  else if \<not> (q_dev q = None \<or> Some (is_devrelease self2) = q_dev q)
                    then (Inr (False, self2), w2)
                  else if arch \<noteq> None \<and> own_arch = None then (Inl UnboundLocalError, w2)
                  else if \<not> (arch = None \<or> own_arch = arch) then (Inr (False, self2), w2)
                  else if \<not> (q_debug q = None \<or> Some (is_debug self2) = q_debug q)
                    then (Inr (False, self2), w2)
                  else (Inr (name_matches (q_name q) (name self2), self2), w2))))"

section \<open>Locations and \<open>from_path\<close>\<close>

text \<open>
  What the code reads of a \<open>PathEntry\<close> of the filesystem collaborator: its path, its
  display name, whether it is a Python executable, and its resolved version (Python's
  \<open>None\<close> when it has none).
\<close>

record PathEntry =
  pe_path :: path
  pe_name :: string
  is_python :: bool
  as_python :: "PythonVersion option"

text \<open>
  \<open>PythonVersion.from_path\<close> on a \<open>PathEntry\<close> (a string argument is first wrapped by
  the collaborator's \<open>PathEntry.create\<close>). \<open>instance_dict\<close> is an address: the final
  \<open>update\<close> writes into the dictionary object that \<open>parse\<close> or \<open>parse_executable\<close>
  handed out. The \<open>company\<close> that is guessed is not put into the dictionary.
\<close>

definition from_path ::
  "env \<Rightarrow> world \<Rightarrow> PathEntry \<Rightarrow> string option \<Rightarrow> bool \<Rightarrow> string option \<Rightarrow> PythonVersion result" where
  "from_path E w path name0 ignore_unsupported0 company0 =
     (let ignore_unsupported = (ignore_unsupported0 \<or> IGNORE_UNSUPPORTED E);
          pname = pe_name path;
          abs_posix = absolute E (pe_path path)
      in
      if \<not> is_python path \<and> \<not> (ignore_unsupported \<or> IGNORE_UNSUPPORTED E)
      then (Inl ValueError, w)
      else
        then_do
          (case parse E w pname of
             (Inl e, w1) \<Rightarrow> parse_executable E w1 abs_posix
           | (Inr a, w1) \<Rightarrow>
               if dict_get (k_minor (heap w1 ! a)) = None
                  \<and> looks_like_python E (path_name (pe_path path))
               then parse_executable E w1 abs_posix
               else (Inr a, w1))
          (\<lambda>a w2.
             if dict_get (k_version (heap w2 ! a)) = None \<and> \<not> ignore_unsupported
             then (Inl ValueError, w2)
             else
               then_do
                 (if dict_get (k_patch (heap w2 ! a)) = None
                  then parse_executable E w2 abs_posix
                  else (Inr a, w2))
                 (\<lambda>b w3.
                    let name1 = (if name0 = None then Some pname else name0);
                        company1 = (if company0 = None then guess_company E (pe_path path)
                                    else company0);
                        d = (heap w3 ! b)\<lparr> k_comes_from := Some (Some (pe_path path)),
                              k_name := Some name1,
                              k_executable := Some (Some (pe_path path)) \<rparr>
                    in (Inr (construct d), w3\<lparr>heap := (heap w3)[b := d]\<rparr>))))"

section \<open>The version index\<close>

text \<open>
  \<open>VersionMap.versions\<close> is a \<open>defaultdict\<close>: the entries in insertion order, and the
  default factory, \<open>None\<close> when the dictionary has none (as \<open>defaultdict()\<close>, which is what
  \<open>attr.ib(factory=defaultdict)\<close> builds) or the value it produces (\<open>[]\<close> for
  \<open>defaultdict(list)\<close>).
\<close>

record VersionMap =
  versions :: "(dedup_key \<times> PathEntry list) list"
  default_factory :: "PathEntry list option"

text \<open>\<open>VersionMap()\<close>.\<close>

definition new_VersionMap :: VersionMap where
  "new_VersionMap = \<lparr> versions = [], default_factory = None \<rparr>"

text \<open>
  \<open>self.versions[key]\<close>: the value of a present key; for a missing key \<open>KeyError\<close>
  without a factory, and otherwise the default, stored under the key.
\<close>

definition getitem :: "VersionMap \<Rightarrow> dedup_key \<Rightarrow> error + PathEntry list \<times> VersionMap" where
  "getitem self k =
     (case map_of (versions self) k of
        Some l \<Rightarrow> Inr (l, self)
      | None \<Rightarrow>
         (case default_factory self of
            None \<Rightarrow> Inl KeyError
          | Some d \<Rightarrow> Inr (d, self\<lparr>versions := versions self @ [(k, d)]\<rparr>)))"

text \<open>
  \<open>VersionMap.add_entry\<close>. \<open>version.version_tuple\<close> is read three times, each time
  through the lazy reads of \<open>minor\<close> and \<open>patch\<close>. The result is the index and the entry
  (whose version the reads may have resolved) after the call.
\<close>

definition add_entry ::
  "env \<Rightarrow> VersionMap \<Rightarrow> PathEntry \<Rightarrow> world \<Rightarrow> (VersionMap \<times> PathEntry) result" where
  "add_entry E self entry w =
     (case as_python entry of
        None \<Rightarrow> (Inr (self, entry), w)
      | Some version0 \<Rightarrow>
          then_do (version_tuple E version0 w) (\<lambda>(t1, v1) w1.
            case getitem self t1 of
              Inl e \<Rightarrow> (Inl e, w1)
            | Inr (_, self1) \<Rightarrow>
                then_do (version_tuple E v1 w1) (\<lambda>(t2, v2) w2.
                  let paths = set (map pe_path
                                 (case map_of (versions self1) t2 of None \<Rightarrow> [] | Some l \<Rightarrow> l))
                  in
                  if pe_path entry \<notin> paths then
                    then_do (version_tuple E v2 w2) (\<lambda>(t3, v3) w3.
                      case getitem self1 t3 of
                        Inl e \<Rightarrow> (Inl e, w3)
                      | Inr (l, self2) \<Rightarrow>
                          (Inr (self2\<lparr>versions :=
                                   AList.update t3 (l @ [entry\<lparr>as_python := Some v3\<rparr>])
                                     (versions self2)\<rparr>,
                                entry\<lparr>as_python := Some v3\<rparr>), w3))
                  else (Inr (self1, entry\<lparr>as_python := Some v2\<rparr>), w2))))"

text \<open>
  \<open>VersionMap.merge\<close>: one step of the loop over \<open>target.versions.items()\<close>, and the
  loop. \<open>d[k] = v\<close> keeps the position of a present key and appends a new one. A key
  that is new takes the other index's list object itself; every key of a dictionary
  is visited once, so within one \<open>merge\<close> no list is both taken over and extended, and
  the lists are values here.
\<close>

definition merge_step ::
  "(dedup_key \<times> PathEntry list) list \<Rightarrow> dedup_key \<times> PathEntry list
     \<Rightarrow> (dedup_key \<times> PathEntry list) list" where
  "merge_step vs item =
     (case item of (version0, entries) \<Rightarrow>
        (case map_of vs version0 of
           None \<Rightarrow> AList.update version0 entries vs
         | Some cur \<Rightarrow>
            (let current_entries = set (map pe_path cur);
                 new_entries = set (map pe_path entries) - current_entries
             in AList.update version0 (cur @ filter (\<lambda>e. pe_path e \<in> new_entries) entries) vs)))"

definition merge :: "VersionMap \<Rightarrow> VersionMap \<Rightarrow> VersionMap" where
  "merge self target =
     self\<lparr>versions := fold (\<lambda>item vs. merge_step vs item) (versions target) (versions self)\<rparr>"


section \<open>The discovery engine\<close>

text \<open>
  What the engine consumes from the filesystem, the environment and the
  \<open>PathEntry\<close> collaborator: \<open>Path.glob\<close>, \<open>exists() and is_dir()\<close>, \<open>is_in_path\<close> of the
  root against the pyenv and asdf roots, the two managers' declared version orders,
  \<open>os.name == "nt"\<close>, and for the entry that \<open>PathEntry.create\<close> builds at a path whether it
  is a Python executable, its resolved version, and what its
  \<open>find_all_python_versions()\<close> enumerates.
\<close>

record fs =
  glob :: "path \<Rightarrow> string \<Rightarrow> path list"
  fs_is_dir :: "path \<Rightarrow> bool"
  in_pyenv_root :: "path \<Rightarrow> bool"
  in_asdf_root :: "path \<Rightarrow> bool"
  parse_pyenv_version_order :: "string list"
  parse_asdf_version_order :: "string list"
  os_name_nt :: bool
  entry_is_python :: "path \<Rightarrow> bool"
  entry_as_python :: "path \<Rightarrow> PythonVersion option"
  entry_pythons :: "path \<Rightarrow> PathEntry list"

definition PathEntry_create :: "fs \<Rightarrow> path \<Rightarrow> string \<Rightarrow> PathEntry" where
  "PathEntry_create FS p n =
     \<lparr> pe_path = p, pe_name = n, is_python = entry_is_python FS p,
       as_python = entry_as_python FS p \<rparr>"

text \<open>The key that \<open>_iter_versions\<close> builds with \<open>version.get(...)\<close> from a dictionary.\<close>

type_synonym finder_key = "int option \<times> int option \<times> int option \<times> bool option \<times> bool option \<times> bool option"

definition key_of_dict :: "vdict \<Rightarrow> finder_key" where
  "key_of_dict d =
     (k_major d, dict_get (k_minor d), dict_get (k_patch d), k_is_prerelease d,
      k_is_devrelease d, k_is_debug d)"

text \<open>
  The attrs class \<open>PythonFinder\<close>: the fields the modelled methods use. \<open>cache_versions\<close>
  is \<open>_versions\<close>; \<open>is_dir\<close> comes from the \<open>BasePath\<close> mixin.
\<close>

record PythonFinder =
  root :: path
  ignore_unsupported :: bool
  version_glob_path :: string
  roots :: "(path \<times> PathEntry) list"
  paths :: "PathEntry list"
  cache_versions :: "(finder_key \<times> PathEntry) list"
  is_dir :: bool

definition get_version_order :: "fs \<Rightarrow> PythonFinder \<Rightarrow> path list" where
  "get_version_order FS self =
     (let version_paths =
            filter (\<lambda>p. \<not> (path_name (path_parent p) = ''envs'' \<or> path_name p = ''envs''))
              (glob FS (root self) (version_glob_path self));
          versions0 = map_of (rev (map (\<lambda>v. (path_name v, v)) version_paths));
          version_order =
            (if in_pyenv_root FS (root self)
             then map (\<lambda>v. the (versions0 v))
                    (filter (\<lambda>v. versions0 v \<noteq> None) (parse_pyenv_version_order FS))
             else if in_asdf_root FS (root self)
             then map (\<lambda>v. the (versions0 v))
                    (filter (\<lambda>v. versions0 v \<noteq> None) (parse_asdf_version_order FS))
             else []);
          version_paths1 =
            fold (\<lambda>version0 vp. if version0 \<in> set vp then remove1 version0 vp else vp)
              version_order version_paths
      in if version_order \<noteq> [] then version_order @ version_paths1 else version_paths1)"

definition get_bin_dir :: "fs \<Rightarrow> path \<Rightarrow> path" where
  "get_bin_dir FS base = (if os_name_nt FS then base else path_join base ''bin'')"

text \<open>
  \<open>_iter_version_bases\<close>: the pairs it yields. It also stores every entry in
  \<open>self.roots\<close>, which \<open>store_roots\<close> does.
\<close>

definition iter_version_bases :: "env \<Rightarrow> fs \<Rightarrow> PythonFinder \<Rightarrow> (path \<times> PathEntry) list" where
  "iter_version_bases E FS self =
     map (\<lambda>p. (p, PathEntry_create FS (absolute E (get_bin_dir FS p)) (path_name p)))
       (filter (\<lambda>p. fs_is_dir FS (get_bin_dir FS p)) (get_version_order FS self))"

definition store_roots :: "(path \<times> PathEntry) list \<Rightarrow> PythonFinder \<Rightarrow> PythonFinder" where
  "store_roots bases self =
     self\<lparr>roots := fold (\<lambda>(p, entry) r. AList.update p entry r) bases (roots self)\<rparr>"

text \<open>\<open>next(iter(xs), None)\<close>.\<close>

definition first_or_None :: "'a list \<Rightarrow> 'a option" where
  "first_or_None xs = (case xs of [] \<Rightarrow> None | x # _ \<Rightarrow> Some x)"

definition as_dict :: "env \<Rightarrow> PythonVersion \<Rightarrow> world \<Rightarrow> (vdict \<times> PythonVersion) result" where
  "as_dict E self w =
     (let mj = major self in
      then_do (getattribute E Minor self w) (\<lambda>(mn, self1) w1.
      then_do (getattribute E Patch self1 w1) (\<lambda>(pt, self2) w2.
        (Inr (empty_dict\<lparr> k_major := Some mj, k_minor := Some mn, k_patch := Some pt,
                 k_is_prerelease := Some (is_prerelease self2),
                 k_is_postrelease := Some (is_postrelease self2),
                 k_is_devrelease := Some (is_devrelease self2),
                 k_is_debug := Some (is_debug self2),
                 k_version := Some (version self2),
                 k_company := Some (company self2) \<rparr>, self2), w2))))"

text \<open>
  \<open>_iter_versions\<close> over the pairs of \<open>_iter_version_bases\<close>: what the generator yields,
  and the exception that ended it, if one did. In the handler for \<open>ValueError\<close> and
  \<open>InvalidPythonVersion\<close> the local \<open>version\<close> still holds its initial \<open>None\<close>, because the
  assignment in the \<open>try\<close> block did not take place.
\<close>

fun iter_versions_loop ::
  "env \<Rightarrow> fs \<Rightarrow> bool \<Rightarrow> (path \<times> PathEntry) list \<Rightarrow> world
     \<Rightarrow> ((path \<times> PathEntry \<times> finder_key) list \<times> error option) \<times> world" where
  "iter_versions_loop E FS ignore [] w = (([], None), w)"
| "iter_versions_loop E FS ignore ((base_path, entry) # rest) w =
     (let version0 = (None :: vdict option) in
      case parse E w (pe_name entry) of
        (Inr a, w1) \<Rightarrow>
          (case iter_versions_loop E FS ignore rest w1 of
             ((ys, err), w2) \<Rightarrow>
               (((base_path, entry, key_of_dict (heap w1 ! a)) # ys, err), w2))
      | (Inl e, w1) \<Rightarrow>
          if e = ValueError \<or> e = InvalidPythonVersion then
            (let version_entry = first_or_None (entry_pythons FS (pe_path entry)) in
             if version0 = None then
               (if \<not> ignore then (([], Some e), w1)
                else iter_versions_loop E FS ignore rest w1)
             else
               (case version_entry of
                  None \<Rightarrow>
                    (case iter_versions_loop E FS ignore rest w1 of
                       ((ys, err), w2) \<Rightarrow>
                         (((base_path, entry, key_of_dict (the version0)) # ys, err), w2))
                | Some ve \<Rightarrow>
                    (case as_python ve of
                       None \<Rightarrow> (([], Some AttributeError), w1)
                     | Some pv \<Rightarrow>
                        (case as_dict E pv w1 of
                           (Inl e2, w2) \<Rightarrow> (([], Some e2), w2)
                         | (Inr (d, _), w2) \<Rightarrow>
                            (case iter_versions_loop E FS ignore rest w2 of
                               ((ys, err), w3) \<Rightarrow>
                                 (((base_path, entry, key_of_dict d) # ys, err), w3))))))
          else
            (if \<not> ignore then (([], Some e), w1)
             else iter_versions_loop E FS ignore rest w1))"

definition iter_versions ::
  "env \<Rightarrow> fs \<Rightarrow> PythonFinder \<Rightarrow> world
     \<Rightarrow> ((path \<times> PathEntry \<times> finder_key) list \<times> error option) \<times> world" where
  "iter_versions E FS self w =
     iter_versions_loop E FS (ignore_unsupported self) (iter_version_bases E FS self) w"

text \<open>
  The property \<open>PythonFinder.versions\<close>: when \<open>_versions\<close> is empty it is filled from
  \<open>_iter_versions\<close>, one assignment \<open>self._versions[version_tuple] = entry\<close> for every
  yield; an exception of the generator ends the loop after the assignments made so
  far. The result is the value or the exception, and the engine after the call.
\<close>

definition finder_versions ::
  "env \<Rightarrow> fs \<Rightarrow> PythonFinder \<Rightarrow> world
     \<Rightarrow> ((error + (finder_key \<times> PathEntry) list) \<times> PythonFinder) \<times> world" where
  "finder_versions E FS self w =
     (if cache_versions self = [] then
        (case iter_versions E FS self w of
           ((ys, err), w1) \<Rightarrow>
             (let filled = fold (\<lambda>(_, entry, version_tuple) c. AList.update version_tuple entry c)
                             ys (cache_versions self);
                  self1 = (store_roots (iter_version_bases E FS self) self)\<lparr>cache_versions := filled\<rparr>
              in case err of
                   None \<Rightarrow> ((Inr filled, self1), w1)
                 | Some e \<Rightarrow> ((Inl e, self1), w1)))
      else ((Inr (cache_versions self), self), w))"


section \<open>The query for all versions\<close>

text \<open>
  \<open>sorted(pythons, key=version_sort, reverse=True)\<close> on locations paired with their
  keys. The keys are compared with Python's \<open><\<close>, which is \<open>key_lt\<close>. When every two
  keys compare, the result is the stable descending sort: in the linear order of the
  key tuples (an unset minor below every number), the reversal of the stable
  ascending sort of the reversed list. A pair of keys that does not compare raises
  \<open>TypeError\<close> as soon as the sort compares it, which for a list of two it always does;
  here it raises whenever there is such a pair.
\<close>

definition comparable :: "sort_key \<Rightarrow> sort_key \<Rightarrow> bool" where
  "comparable a b = (case key_lt a b of Inl _ \<Rightarrow> False | Inr _ \<Rightarrow> True)"

definition sorted_reverse :: "('a \<times> sort_key) list \<Rightarrow> error + ('a \<times> sort_key) list" where
  "sorted_reverse xs =
     (if list_all (\<lambda>a. list_all (\<lambda>b. comparable (snd a) (snd b)) xs) xs
      then Inr (rev (sort_key snd (rev xs)))
      else Inl TypeError)"

text \<open>
  The key function \<open>attrgetter("as_python.version_sort")\<close> applied to every location in
  turn: a location without a version has no \<open>version_sort\<close>, and reading the key may
  resolve the version of the location.
\<close>

fun version_sort_keys :: "env \<Rightarrow> PathEntry list \<Rightarrow> world \<Rightarrow> ((PathEntry \<times> sort_key) list) result" where
  "version_sort_keys E [] w = (Inr [], w)"
| "version_sort_keys E (p # ps) w =
     (case as_python p of
        None \<Rightarrow> (Inl AttributeError, w)
      | Some v \<Rightarrow>
          then_do (version_sort E v w) (\<lambda>(k, v1) w1.
          then_do (version_sort_keys E ps w1) (\<lambda>keyed w2.
            (Inr ((p\<lparr>as_python := Some v1\<rparr>, k) # keyed), w2))))"

text \<open>
  Modelled from the spec: \<open>expand_paths\<close> of \<open>utils\<close> is not part of the modelled code. The
  spec has it ``flatten, drop unresolved/empty results''. The results to flatten are
  lists of locations, a result that is one optional location being the list of at
  most one element.
\<close>

definition expand_paths :: "PathEntry list list \<Rightarrow> PathEntry list" where
  "expand_paths pythons = filter (\<lambda>p. as_python p \<noteq> None) (concat pythons)"

definition option_list :: "'a option \<Rightarrow> 'a list" where
  "option_list x = (case x of None \<Rightarrow> [] | Some y \<Rightarrow> [y])"

text \<open>
  Modelled from the spec: \<open>find_all_python_versions\<close> of a \<open>PathEntry\<close> with constraints is
  not part of the modelled code. The spec has the engine ``apply \<open>matches(predicate)\<close>
  across every candidate's full executable enumeration'': the locations of the
  entry's enumeration whose version matches, in the order of the enumeration. The
  seven arguments are passed on to \<open>matches\<close>, whose \<open>debug\<close> keeps its default \<open>False\<close>.
\<close>

fun matching_locations :: "env \<Rightarrow> query \<Rightarrow> PathEntry list \<Rightarrow> world \<Rightarrow> (PathEntry list) result" where
  "matching_locations E q [] w = (Inr [], w)"
| "matching_locations E q (p # ps) w =
     (case as_python p of
        None \<Rightarrow> matching_locations E q ps w
      | Some v \<Rightarrow>
          then_do (matches E v w (q\<lparr>q_debug := Some False\<rparr>)) (\<lambda>(b, v1) w1.
          then_do (matching_locations E q ps w1) (\<lambda>found w2.
            (Inr (if b then p\<lparr>as_python := Some v1\<rparr> # found else found), w2))))"

definition entry_find_all_python_versions ::
  "env \<Rightarrow> fs \<Rightarrow> PathEntry \<Rightarrow> query \<Rightarrow> world \<Rightarrow> (PathEntry list) result" where
  "entry_find_all_python_versions E FS entry q w =
     matching_locations E q (entry_pythons FS (pe_path entry)) w"

text \<open>The list \<open>[sub_finder(path) for path in self.paths]\<close> when \<open>self\<close> is a directory.\<close>

fun sub_finder_all ::
  "env \<Rightarrow> fs \<Rightarrow> query \<Rightarrow> PathEntry list \<Rightarrow> world \<Rightarrow> (PathEntry list list) result" where
  "sub_finder_all E FS q [] w = (Inr [], w)"
| "sub_finder_all E FS q (path0 # rest) w =
     then_do (entry_find_all_python_versions E FS path0 q w) (\<lambda>found w1.
     then_do (sub_finder_all E FS q rest w1) (\<lambda>others w2. (Inr (found # others), w2)))"

text \<open>\<open>any([major, minor, patch, name])\<close>: a number counts when it is not 0, a name when it is not empty.\<close>

definition truthy_int :: "int option \<Rightarrow> bool" where
  "truthy_int n = (case n of None \<Rightarrow> False | Some i \<Rightarrow> i \<noteq> 0)"

definition any_constraint :: "query \<Rightarrow> bool" where
  "any_constraint q =
     (truthy_int (q_major q) \<or> truthy_int (q_minor q) \<or> truthy_int (q_patch q)
      \<or> truthy_str (q_name q))"

text \<open>
  \<open>PythonFinder.find_all_python_versions\<close>. \<open>major\<close> is taken as a number. When the
  engine is not a directory the sub-finder is \<open>find_python_version\<close> of the entries,
  a collaborator's method of which nothing is given but that it returns a location or
  \<open>None\<close>: it is the parameter \<open>find_one\<close>.
\<close>

definition find_all_python_versions ::
  "env \<Rightarrow> fs \<Rightarrow> (PathEntry \<Rightarrow> query \<Rightarrow> PathEntry option) \<Rightarrow> PythonFinder \<Rightarrow> query \<Rightarrow> world
     \<Rightarrow> (PathEntry list) result" where
  "find_all_python_versions E FS find_one self q w =
     then_do
       (if \<not> any_constraint q then
          (Inr (map (\<lambda>(_, base). option_list (first_or_None (entry_pythons FS (pe_path base))))
                  (iter_version_bases E FS self)), w)
        else if is_dir self then sub_finder_all E FS q (paths self) w
        else (Inr (map (\<lambda>path0. option_list (find_one path0 q)) (paths self)), w))
       (\<lambda>pythons w1.
          then_do (version_sort_keys E (expand_paths pythons) w1) (\<lambda>keyed w2.
            case sorted_reverse keyed of
              Inl e \<Rightarrow> (Inl e, w2)
            | Inr s \<Rightarrow> (Inr (map fst s), w2)))"


section \<open>Release kinds and example data\<close>

text \<open>The release kinds: at most one of the four flags is set.\<close>

definition plain_release :: "PythonVersion \<Rightarrow> bool" where
  "plain_release a =
     (\<not> is_postrelease a \<and> \<not> is_prerelease a \<and> \<not> is_devrelease a \<and> \<not> is_debug a)"

definition only_postrelease :: "PythonVersion \<Rightarrow> bool" where
  "only_postrelease a =
     (is_postrelease a \<and> \<not> is_prerelease a \<and> \<not> is_devrelease a \<and> \<not> is_debug a)"

definition only_prerelease :: "PythonVersion \<Rightarrow> bool" where
  "only_prerelease a =
     (\<not> is_postrelease a \<and> is_prerelease a \<and> \<not> is_devrelease a \<and> \<not> is_debug a)"

definition only_devrelease :: "PythonVersion \<Rightarrow> bool" where
  "only_devrelease a =
     (\<not> is_postrelease a \<and> \<not> is_prerelease a \<and> is_devrelease a \<and> \<not> is_debug a)"

definition only_debug :: "PythonVersion \<Rightarrow> bool" where
  "only_debug a =
     (\<not> is_postrelease a \<and> \<not> is_prerelease a \<and> \<not> is_devrelease a \<and> is_debug a)"

text \<open>
  A machine for the examples: \<open>/opt/py/3.9.1/bin/python\<close> reports \<open>3.9.1\<close>, every
  other executable fails to run, and \<open>3.9.1\<close> is the one version text that parses.
\<close>

definition dict_3_9_1 :: vdict where
  "dict_3_9_1 = empty_dict\<lparr> k_major := Some 3, k_minor := Some (Some 9),
     k_patch := Some (Some 1), k_is_prerelease := Some False, k_is_postrelease := Some False,
     k_is_devrelease := Some False, k_is_debug := Some False,
     k_version := Some (Some ''3.9.1'') \<rparr>"

definition example_env :: env where
  "example_env = \<lparr>
     get_python_version =
       (\<lambda>p. if p = ''/opt/py/3.9.1/bin/python'' then Inr (Some ''3.9.1'') else Inl OtherError),
     parse_python_version =
       (\<lambda>s. if s = ''3.9.1'' then Inr dict_3_9_1 else Inl InvalidPythonVersion),
     looks_like_python = (\<lambda>s. take 6 s = ''python''),
     guess_company = (\<lambda>p. None),
     IGNORE_UNSUPPORTED = False,
     platform_architecture = (\<lambda>p. ''64bit''),
     sys_executable = ''/usr/bin/python3'',
     absolute = (\<lambda>p. p) \<rparr>"

definition release_3_9_1 :: PythonVersion where
  "release_3_9_1 = default_version\<lparr> major := 3, minor := Some 9, patch := Some 1 \<rparr>"

definition dir_3_9_1 :: PathEntry where
  "dir_3_9_1 = \<lparr> pe_path = ''/opt/py/3.9.1'', pe_name = ''3.9.1'', is_python = False,
     as_python = None \<rparr>"

definition broken_python :: PythonVersion where
  "broken_python = default_version\<lparr> major := 3, executable := Some ''/opt/broken/bin/python'' \<rparr>"

definition unprobed_python :: PythonVersion where
  "unprobed_python = default_version\<lparr> major := 3, executable := Some ''/opt/py/3.9.1/bin/python'' \<rparr>"

text \<open>
  An instance on which reading \<open>minor\<close> and \<open>patch\<close> runs no probe: both are set, or
  neither an executable nor a source location is known.
\<close>

definition needs_no_probe :: "PythonVersion \<Rightarrow> bool" where
  "needs_no_probe self =
     (minor self \<noteq> None \<and> patch self \<noteq> None
      \<or> \<not> truthy_str (executable self) \<and> comes_from self = None)"

definition any_query :: query where
  "any_query = \<lparr> q_major = None, q_minor = None, q_patch = None, q_pre = None, q_dev = None,
     q_arch = None, q_debug = None, q_name = None \<rparr>"


definition python_3_9_1 :: PathEntry where
  "python_3_9_1 = \<lparr> pe_path = ''/opt/py/3.9.1/bin/python'', pe_name = ''python'',
     is_python = True,
     as_python = Some (release_3_9_1\<lparr> executable := Some ''/opt/py/3.9.1/bin/python'',
                         comes_from := Some ''/opt/py/3.9.1/bin/python'',
                         name := Some ''python'' \<rparr>) \<rparr>"

definition python3_3_9_1 :: PathEntry where
  "python3_3_9_1 = python_3_9_1\<lparr> pe_path := ''/opt/py/3.9.1/bin/python3'', pe_name := ''python3'' \<rparr>"

definition key_3_9_1 :: dedup_key where
  "key_3_9_1 = (3, Some 9, Some 1, False, False, False)"


text \<open>
  What a present key holds after \<open>merge\<close>: the local entries, then the entries of the
  other list whose path is not among the local ones.
\<close>

definition merged_list :: "PathEntry list \<Rightarrow> PathEntry list \<Rightarrow> PathEntry list" where
  "merged_list cur entries = cur @ filter (\<lambda>e. pe_path e \<notin> set (map pe_path cur)) entries"

text \<open>
  A pyenv root for the examples. \<open>versions/*\<close> matches \<open>custom\<close>, \<open>3.9.1\<close> and \<open>envs\<close>, and
  \<open>*/*\<close> two installations that are both named \<open>3.9.1\<close>; pyenv prefers \<open>3.9.1\<close>. The
  directory \<open>custom\<close> holds a Python 3.10.0, whose name does not parse.
\<close>

definition python_3_10_0 :: PathEntry where
  "python_3_10_0 = \<lparr> pe_path = ''/opt/pyenv/versions/custom/bin/python'', pe_name = ''python'',
     is_python = True,
     as_python = Some (default_version\<lparr> major := 3, minor := Some 10, patch := Some 0,
                         executable := Some ''/opt/pyenv/versions/custom/bin/python'',
                         comes_from := Some ''/opt/pyenv/versions/custom/bin/python'',
                         name := Some ''python'' \<rparr>) \<rparr>"

definition pyenv_python_3_9_1 :: PathEntry where
  "pyenv_python_3_9_1 = \<lparr> pe_path = ''/opt/pyenv/versions/3.9.1/bin/python'', pe_name = ''python'',
     is_python = True,
     as_python = Some (release_3_9_1\<lparr> executable := Some ''/opt/pyenv/versions/3.9.1/bin/python'',
                         comes_from := Some ''/opt/pyenv/versions/3.9.1/bin/python'',
                         name := Some ''python'' \<rparr>) \<rparr>"

definition example_fs :: fs where
  "example_fs = \<lparr>
     glob = (\<lambda>r pat.
       if r = ''/opt/pyenv'' \<and> pat = ''versions/*''
       then [''/opt/pyenv/versions/custom'', ''/opt/pyenv/versions/3.9.1'',
             ''/opt/pyenv/versions/envs'']
       else if r = ''/opt/pyenv'' \<and> pat = ''*/*''
       then [''/opt/pyenv/a/3.9.1'', ''/opt/pyenv/b/3.9.1'']
       else []),
     fs_is_dir = (\<lambda>p. p \<in> set [''/opt/pyenv/versions/custom/bin'',
                                 ''/opt/pyenv/versions/3.9.1/bin'',
                                 ''/opt/pyenv/a/3.9.1/bin'', ''/opt/pyenv/b/3.9.1/bin'']),
     in_pyenv_root = (\<lambda>p. p = ''/opt/pyenv''),
     in_asdf_root = (\<lambda>p. False),
     parse_pyenv_version_order = [''3.9.1'', ''system''],
     parse_asdf_version_order = [],
     os_name_nt = False,
     entry_is_python = (\<lambda>p. False),
     entry_as_python = (\<lambda>p. None),
     entry_pythons = (\<lambda>p.
       if p = ''/opt/pyenv/versions/custom/bin'' then [python_3_10_0]
       else if p = ''/opt/pyenv/versions/3.9.1/bin'' then [pyenv_python_3_9_1]
       else []) \<rparr>"

definition example_finder :: PythonFinder where
  "example_finder = \<lparr> root = ''/opt/pyenv'', ignore_unsupported = True,
     version_glob_path = ''versions/*'', roots = [], paths = [], cache_versions = [],
     is_dir = True \<rparr>"


text \<open>
  For the statement about \<open>get_version_order\<close>: the glob matches that are kept, and the
  declared order of the manager the root belongs to (pyenv before asdf).
\<close>

definition kept_matches :: "fs \<Rightarrow> PythonFinder \<Rightarrow> path list" where
  "kept_matches FS self =
     filter (\<lambda>p. \<not> (path_name (path_parent p) = ''envs'' \<or> path_name p = ''envs''))
       (glob FS (root self) (version_glob_path self))"

definition manager_order :: "fs \<Rightarrow> PythonFinder \<Rightarrow> string list" where
  "manager_order FS self =
     (if in_pyenv_root FS (root self) then parse_pyenv_version_order FS
      else if in_asdf_root FS (root self) then parse_asdf_version_order FS
      else [])"


text \<open>The rank key of the stored fields, which \<open>version_sort\<close> returns when no probe runs.\<close>

definition rank_key :: "PythonVersion \<Rightarrow> sort_key" where
  "rank_key v = (company_sort v, major v, minor v, patch_or_0 (patch v), release_sort v)"

text \<open>A list of locations in descending order of their rank keys under Python's \<open><\<close>.\<close>

definition descending :: "PathEntry list \<Rightarrow> bool" where
  "descending ps =
     sorted_wrt (\<lambda>a b. key_lt (rank_key (the (as_python a))) (rank_key (the (as_python b)))
                         = Inr False) ps"

definition resolved_without_probe :: "PathEntry \<Rightarrow> bool" where
  "resolved_without_probe p = (case as_python p of None \<Rightarrow> True | Some v \<Rightarrow> needs_no_probe v)"


text \<open>The first executable of every enumerated root that has one with a version, in root order.\<close>

definition first_locations :: "env \<Rightarrow> fs \<Rightarrow> PythonFinder \<Rightarrow> PathEntry list" where
  "first_locations E FS self =
     expand_paths
       (map (\<lambda>(_, base). option_list (first_or_None (entry_pythons FS (pe_path base))))
          (iter_version_bases E FS self))"


section \<open>Verified properties\<close>

subsection \<open>Sequencing and reads that need no probe\<close>

lemma then_do_Inr:
  "then_do r f = (Inr y, w') \<Longrightarrow> \<exists>x w1. r = (Inr x, w1) \<and> f x w1 = (Inr y, w')"
  by (auto simp: then_do_def split: prod.splits sum.splits)

lemma version_sort_components:
  assumes "version_sort E a w = (Inr ((c, mj, mn, pt, r), a'), w')"
  shows "r = release_sort a" and "c = company_sort a" and "mj = major a"
  using assms unfolding version_sort_def Let_def
  by (auto dest!: then_do_Inr split: prod.splits)

subsection \<open>The rank key orders the release kinds\<close>

text \<open>
  C1. Take two instances with the same company and the same major whose rank keys
  were read with the same minor and patch. When their release kinds differ, the keys
  order them postrelease above plain release above prerelease or debug above
  devrelease, and a prerelease and a debug build tie.
\<close>

theorem version_sort_release_order:
  assumes "version_sort E a w = (Inr ((ca, mja, mn, pt, ra), a'), w')"
      and "version_sort E b v = (Inr ((cb, mjb, mn, pt, rb), b'), v')"
      and "company a = company b" and "major a = major b"
  shows "(only_postrelease a \<and>
            (plain_release b \<or> only_prerelease b \<or> only_debug b \<or> only_devrelease b)
          \<or> plain_release a \<and> (only_prerelease b \<or> only_debug b \<or> only_devrelease b)
          \<or> (only_prerelease a \<or> only_debug a) \<and> only_devrelease b
         \<longrightarrow> key_lt (cb, mjb, mn, pt, rb) (ca, mja, mn, pt, ra) = Inr True
           \<and> key_lt (ca, mja, mn, pt, ra) (cb, mjb, mn, pt, rb) = Inr False)
       \<and> ((only_prerelease a \<or> only_debug a) \<and> (only_prerelease b \<or> only_debug b)
         \<longrightarrow> key_lt (cb, mjb, mn, pt, rb) (ca, mja, mn, pt, ra) = Inr False
           \<and> key_lt (ca, mja, mn, pt, ra) (cb, mjb, mn, pt, rb) = Inr False)"
proof -
  note A = version_sort_components[OF assms(1)]
  note B = version_sort_components[OF assms(2)]
  have c: "ca = cb" using A(2) B(2) assms(3) by (simp add: company_sort_def)
  have m: "mja = mjb" using A(3) B(3) assms(4) by simp
  show ?thesis
    unfolding A(1) B(1) c m
    by (auto simp: key_lt_def release_sort_def plain_release_def only_postrelease_def
        only_prerelease_def only_devrelease_def only_debug_def)
qed

lemma getattribute_stored:
  "stored key self \<noteq> None \<Longrightarrow> getattribute E key self w = (Inr (stored key self, self), w)"
  by (cases "stored key self") (simp_all add: getattribute_def Let_def)

lemma version_sort_resolved:
  "minor self = Some mn \<Longrightarrow> patch self = Some pt \<Longrightarrow>
   version_sort E self w =
     (Inr ((company_sort self, major self, Some mn, pt, release_sort self), self), w)"
  by (simp add: version_sort_def Let_def getattribute_stored stored_def then_do_def patch_or_0_def)

theorem version_sort_release_order_witness:
  "version_sort example_env (release_3_9_1\<lparr>is_postrelease := True\<rparr>) empty_world
     = (Inr ((0, 3, Some 9, 1, 3), release_3_9_1\<lparr>is_postrelease := True\<rparr>), empty_world)
   \<and> version_sort example_env release_3_9_1 empty_world
     = (Inr ((0, 3, Some 9, 1, 2), release_3_9_1), empty_world)
   \<and> key_lt (0, 3, Some 9, 1, 2) (0, 3, Some 9, 1, 3) = Inr True
   \<and> key_lt (0, 3, Some 9, 1, 3) (0, 3, Some 9, 1, 2) = Inr False"
proof -
  have h1: "version_sort example_env (release_3_9_1\<lparr>is_postrelease := True\<rparr>) empty_world
     = (Inr ((0, 3, Some 9, 1, 3), release_3_9_1\<lparr>is_postrelease := True\<rparr>), empty_world)"
    by (simp add: version_sort_resolved[of _ 9 1] release_3_9_1_def default_version_def
        company_sort_def release_sort_def truthy_str_def)
  have h2: "version_sort example_env release_3_9_1 empty_world
     = (Inr ((0, 3, Some 9, 1, 2), release_3_9_1), empty_world)"
    by (simp add: version_sort_resolved[of _ 9 1] release_3_9_1_def default_version_def
        company_sort_def release_sort_def truthy_str_def)
  have k: "only_postrelease (release_3_9_1\<lparr>is_postrelease := True\<rparr>)" "plain_release release_3_9_1"
    by (simp_all add: only_postrelease_def plain_release_def release_3_9_1_def default_version_def)
  show ?thesis
    using version_sort_release_order[OF h1 h2] h1 h2 k by simp
qed

subsection \<open>Lazy reads of minor and patch\<close>

lemma getattribute_no_probe:
  "needs_no_probe self \<Longrightarrow> getattribute E key self w = (Inr (stored key self, self), w)"
  by (cases key; cases "minor self"; cases "patch self")
     (auto simp: needs_no_probe_def getattribute_def stored_def Let_def)

lemma needs_no_probe_architecture:
  "needs_no_probe (self\<lparr>architecture := a\<rparr>) = needs_no_probe self"
  by (simp add: needs_no_probe_def)

lemma get_architecture_no_probe:
  "needs_no_probe self \<Longrightarrow> needs_no_probe (snd (get_architecture E self))"
  by (simp add: get_architecture_def Let_def needs_no_probe_architecture)

lemma lazy_eq_no_probe:
  "needs_no_probe self \<Longrightarrow>
   lazy_eq E key wanted self w = (Inr (wanted = None \<or> stored key self = wanted, self), w)"
  by (auto simp: lazy_eq_def getattribute_no_probe then_do_def)

lemma returns_if:
  assumes "c \<Longrightarrow> \<exists>b. (\<exists>s. x = (Inr (b, s), w)) \<and> (b \<longrightarrow> P)"
      and "\<not> c \<Longrightarrow> \<exists>b. (\<exists>s. y = (Inr (b, s), w)) \<and> (b \<longrightarrow> P)"
  shows "\<exists>b. (\<exists>s. (if c then x else y) = (Inr (b :: bool, s :: PythonVersion), w :: world))
           \<and> (b \<longrightarrow> P)"
  using assms by (cases c) simp_all

lemma get_architecture_fields:
  "get_architecture E self = (a, s) \<Longrightarrow>
   major s = major self \<and> minor s = minor self \<and> patch s = patch self \<and> name s = name self"
  by (auto simp: get_architecture_def Let_def split: if_splits)

lemma matches_no_probe:
  assumes "needs_no_probe self" and "q_arch q \<noteq> Some []"
  shows "\<exists>b self'. matches E self w q = (Inr (b, self'), w)
           \<and> (b \<longrightarrow> (q_major q = None \<or> Some (major self) = q_major q)
                 \<and> (q_minor q = None \<or> minor self = q_minor q)
                 \<and> (q_patch q = None \<or> patch self = q_patch q)
                 \<and> name_matches (q_name q) (name self))"
proof (cases "truthy_str (q_arch q)")
  case True
  obtain a s where g: "get_architecture E self = (a, s)" by (cases "get_architecture E self")
  have s: "needs_no_probe s" using get_architecture_no_probe[OF assms(1), of E] g by simp
  note f = get_architecture_fields[OF g]
  show ?thesis
    unfolding matches_def using True g
    by (simp add: lazy_eq_no_probe[OF s] then_do_def split del: if_split cong: if_cong)
       (intro returns_if; auto simp: f stored_def)
next
  case False
  then have n: "q_arch q = None" using assms(2) by (cases "q_arch q") (auto simp: truthy_str_def)
  show ?thesis
    unfolding matches_def using False n
    by (simp add: lazy_eq_no_probe[OF assms(1)] then_do_def split del: if_split cong: if_cong)
       (intro returns_if; auto simp: stored_def)
qed

lemma version_sort_no_probe:
  "needs_no_probe self \<Longrightarrow>
   version_sort E self w =
     (Inr ((company_sort self, major self, minor self, patch_or_0 (patch self), release_sort self),
           self), w)"
  by (simp add: version_sort_def Let_def getattribute_no_probe stored_def then_do_def)

lemma probe_target:
  "stored key self = None \<Longrightarrow>
   (if truthy_str (executable self) then executable self else comes_from self) = Some exe \<Longrightarrow>
   getattribute E key self w =
     then_do (parse_executable E w exe) (\<lambda>a w1.
        (Inr (get_key key (heap w1 ! a), update_metadata (heap w1 ! a) self), w1))"
  by (auto simp: getattribute_def Let_def split: if_splits)

lemma parse_executable_failed_probe:
  "map_of (exe_cache w) exe = None \<Longrightarrow>
   get_python_version E exe = Inr None \<or> (\<exists>e. get_python_version E exe = Inl e) \<Longrightarrow>
   parse_executable E w exe = (Inl ValueError, w\<lparr>probes := probes w @ [exe]\<rparr>)"
  by (auto simp: parse_executable_def Let_def)

lemma stored_update_metadata:
  "get_key key d \<noteq> None \<Longrightarrow> stored key (update_metadata d self) = get_key key d"
  by (cases key; cases "k_minor d"; cases "k_patch d")
     (auto simp: get_key_def stored_def update_metadata_def set_or_def dict_get_def)

text \<open>
  C6, as the code has it. A read of an unset \<open>minor\<close> or \<open>patch\<close> on an instance with
  a known executable or source location calls \<open>parse_executable\<close> on that path. When
  the call succeeds, the attributes named by the dictionary are stored on the instance
  and the read returns the dictionary's value for the field; once the field is set, a
  read returns it without a probe. When the call fails, the read raises and gives back
  no updated instance; a failed run of the executable is not cached, so the next read
  runs it again and raises again.
\<close>

theorem lazy_read_behaviour:
  assumes "stored key self = None"
      and "(if truthy_str (executable self) then executable self else comes_from self) = Some exe"
  shows "(\<forall>a w1. parse_executable E w exe = (Inr a, w1) \<longrightarrow>
            getattribute E key self w
              = (Inr (get_key key (heap w1 ! a), update_metadata (heap w1 ! a) self), w1)
            \<and> (get_key key (heap w1 ! a) \<noteq> None \<longrightarrow>
                 (\<forall>w2. getattribute E key (update_metadata (heap w1 ! a) self) w2
                      = (Inr (get_key key (heap w1 ! a), update_metadata (heap w1 ! a) self), w2))))
       \<and> (\<forall>e w1. parse_executable E w exe = (Inl e, w1) \<longrightarrow>
            getattribute E key self w = (Inl e, w1))
       \<and> (map_of (exe_cache w) exe = None
            \<and> (get_python_version E exe = Inr None \<or> (\<exists>e. get_python_version E exe = Inl e)) \<longrightarrow>
            getattribute E key self w = (Inl ValueError, w\<lparr>probes := probes w @ [exe]\<rparr>)
            \<and> getattribute E key self (w\<lparr>probes := probes w @ [exe]\<rparr>)
                = (Inl ValueError, w\<lparr>probes := probes w @ [exe, exe]\<rparr>))"
proof -
  note G = probe_target[OF assms]
  have A: "getattribute E key self w
              = (Inr (get_key key (heap w1 ! a), update_metadata (heap w1 ! a) self), w1)"
    if "parse_executable E w exe = (Inr a, w1)" for a w1
    using that by (simp add: G then_do_def)
  have B: "getattribute E key (update_metadata d self) w2
                      = (Inr (get_key key d, update_metadata d self), w2)"
    if "get_key key d \<noteq> None" for d w2
    using getattribute_stored[of key "update_metadata d self" E w2] stored_update_metadata[OF that]
      that by simp
  have C: "getattribute E key self w = (Inl e, w1)"
    if "parse_executable E w exe = (Inl e, w1)" for e w1
    using that by (simp add: G then_do_def)
  have D: "getattribute E key self w' = (Inl ValueError, w'\<lparr>probes := probes w' @ [exe]\<rparr>)"
    if "map_of (exe_cache w') exe = None"
       "get_python_version E exe = Inr None \<or> (\<exists>e. get_python_version E exe = Inl e)" for w'
    using parse_executable_failed_probe[OF that]
    by (simp add: probe_target[OF assms] then_do_def)
  have D2: "getattribute E key self (w\<lparr>probes := probes w @ [exe]\<rparr>)
                = (Inl ValueError, w\<lparr>probes := probes w @ [exe, exe]\<rparr>)"
    if "map_of (exe_cache w) exe = None"
       "get_python_version E exe = Inr None \<or> (\<exists>e. get_python_version E exe = Inl e)"
    using D[of "w\<lparr>probes := probes w @ [exe]\<rparr>"] that by simp
  show ?thesis
    using A B C D[of w] D2 by blast
qed

theorem lazy_read_behaviour_witness:
  "stored Minor unprobed_python = None
   \<and> (if truthy_str (executable unprobed_python) then executable unprobed_python
       else comes_from unprobed_python) = Some ''/opt/py/3.9.1/bin/python''
   \<and> fst (getattribute example_env Minor unprobed_python empty_world)
       = Inr (Some 9, update_metadata dict_3_9_1 unprobed_python)
   \<and> getattribute example_env Minor broken_python empty_world
       = (Inl ValueError, empty_world\<lparr>probes := [''/opt/broken/bin/python'']\<rparr>)"
proof -
  have h1: "stored Minor unprobed_python = None" by code_simp
  have h2: "(if truthy_str (executable unprobed_python) then executable unprobed_python
       else comes_from unprobed_python) = Some ''/opt/py/3.9.1/bin/python''" by code_simp
  have h3: "stored Minor broken_python = None" by code_simp
  have h4: "(if truthy_str (executable broken_python) then executable broken_python
       else comes_from broken_python) = Some ''/opt/broken/bin/python''" by code_simp
  have p: "parse_executable example_env empty_world ''/opt/py/3.9.1/bin/python''
     = (Inr 0, \<lparr> heap = [dict_3_9_1], parse_cache = [(''3.9.1'', 0)],
          exe_cache = [(''/opt/py/3.9.1/bin/python'', 0)],
          probes = [''/opt/py/3.9.1/bin/python''] \<rparr>)" by code_simp
  have g: "get_key Minor dict_3_9_1 = Some 9" by code_simp
  have c: "map_of (exe_cache empty_world) ''/opt/broken/bin/python'' = None" by code_simp
  have f: "get_python_version example_env ''/opt/broken/bin/python'' = Inl OtherError" by code_simp
  have e: "probes empty_world = []" by code_simp
  show ?thesis
    using lazy_read_behaviour[OF h1 h2, of example_env empty_world]
          lazy_read_behaviour[OF h3 h4, of example_env empty_world] h1 h2 p g c f e
    by simp
qed

text \<open>
  C6 as stated fails: on an instance whose executable does not run, the first read of
  \<open>minor\<close> raises \<open>ValueError\<close>, and the second read runs the executable a second time and
  raises again, instead of returning the unset value.
\<close>

theorem failed_probe_raises_and_repeats:
  "getattribute example_env Minor broken_python empty_world
     = (Inl ValueError, empty_world\<lparr>probes := [''/opt/broken/bin/python'']\<rparr>)
   \<and> getattribute example_env Minor broken_python
        (empty_world\<lparr>probes := [''/opt/broken/bin/python'']\<rparr>)
     = (Inl ValueError,
        empty_world\<lparr>probes := [''/opt/broken/bin/python'', ''/opt/broken/bin/python'']\<rparr>)"
  by code_simp

subsection \<open>The predicate and the rank key without a probe\<close>

text \<open>
  C7, as the code has it. On an instance that needs no probe, and for every predicate
  whose \<open>arch\<close> is \<open>None\<close> or non-empty, \<open>matches\<close> returns a boolean without raising, and
  the boolean is true only if every given major, minor, patch and name constraint is
  met by the stored fields, so that an unset field does not match; \<open>version_sort\<close>
  returns the key of the stored fields, an unset patch counting as 0.
\<close>

theorem matches_and_version_sort_without_probe:
  assumes "needs_no_probe self" and "q_arch q \<noteq> Some []"
  shows "(\<exists>b self'. matches E self w q = (Inr (b, self'), w)
           \<and> (b \<longrightarrow> (q_major q = None \<or> Some (major self) = q_major q)
                 \<and> (q_minor q = None \<or> minor self = q_minor q)
                 \<and> (q_patch q = None \<or> patch self = q_patch q)
                 \<and> name_matches (q_name q) (name self)))
       \<and> version_sort E self w
           = (Inr ((company_sort self, major self, minor self, patch_or_0 (patch self),
                    release_sort self), self), w)
       \<and> patch_or_0 None = 0"
  using matches_no_probe[OF assms] version_sort_no_probe[OF assms(1)]
  by (simp add: patch_or_0_def)

theorem matches_and_version_sort_without_probe_witness:
  "needs_no_probe (default_version\<lparr>major := 3\<rparr>)
   \<and> q_arch (any_query\<lparr>q_minor := Some 9\<rparr>) \<noteq> Some []
   \<and> matches example_env (default_version\<lparr>major := 3\<rparr>) empty_world
         (any_query\<lparr>q_minor := Some 9\<rparr>)
       = (Inr (False, default_version\<lparr>major := 3\<rparr>), empty_world)
   \<and> version_sort example_env (default_version\<lparr>major := 3\<rparr>) empty_world
       = (Inr ((0, 3, None, 0, 2), default_version\<lparr>major := 3\<rparr>), empty_world)"
proof -
  have h1: "needs_no_probe (default_version\<lparr>major := 3\<rparr>)" by code_simp
  have h2: "q_arch (any_query\<lparr>q_minor := Some 9\<rparr>) \<noteq> Some []" by code_simp
  have m: "matches example_env (default_version\<lparr>major := 3\<rparr>) empty_world
         (any_query\<lparr>q_minor := Some 9\<rparr>)
       = (Inr (False, default_version\<lparr>major := 3\<rparr>), empty_world)" by code_simp
  have k: "company_sort (default_version\<lparr>major := 3\<rparr>) = 0"
       "release_sort (default_version\<lparr>major := 3\<rparr>) = 2"
       "minor (default_version\<lparr>major := 3\<rparr>) = None"
       "patch (default_version\<lparr>major := 3\<rparr>) = None" by code_simp+
  show ?thesis
    using matches_and_version_sort_without_probe[OF h1 h2, of example_env empty_world] h1 h2 m k
    by simp
qed

text \<open>
  C7 as stated fails: on an instance with an unset minor whose executable does not run,
  both \<open>version_sort\<close> and \<open>matches\<close> with a minor constraint raise \<open>ValueError\<close>.
\<close>

theorem version_sort_and_matches_raise:
  "fst (version_sort example_env broken_python empty_world) = Inl ValueError
   \<and> fst (matches example_env broken_python empty_world (any_query\<lparr>q_minor := Some 9\<rparr>))
       = Inl ValueError"
  by code_simp

text \<open>
  Two further ways to an exception, both outside the statement above: a key with an
  unset minor does not compare with a key whose minor is set, and an empty \<open>arch\<close>
  leaves \<open>own_arch\<close> unbound.
\<close>

lemma key_lt_unset_minor:
  "key_lt (0, 3, None, 0, 2) (0, 3, Some 9, 0, 2) = Inl TypeError"
  by code_simp

lemma matches_empty_arch:
  "fst (matches example_env release_3_9_1 empty_world (any_query\<lparr>q_arch := Some []\<rparr>))
     = Inl UnboundLocalError"
  by code_simp

subsection \<open>The parse cache hands out a shared dictionary\<close>

text \<open>
  C8 fails on the code: \<open>parse\<close> is called on \<open>3.9.1\<close>, then \<open>from_path\<close> on a directory
  of that name, then \<open>parse\<close> on \<open>3.9.1\<close> again. Both calls return the cached object at
  address 0; \<open>from_path\<close> has written \<open>comes_from\<close>, \<open>name\<close> and \<open>executable\<close> into it,
  so the dictionary the second call returns is not the one the first returned.
\<close>

theorem parse_result_changed_by_from_path:
  "(case parse example_env empty_world ''3.9.1'' of (r1, w1) \<Rightarrow>
    case from_path example_env w1 dir_3_9_1 None True None of (r2, w2) \<Rightarrow>
    case parse example_env w2 ''3.9.1'' of (r3, w3) \<Rightarrow>
      r1 = Inr 0 \<and> r3 = Inr 0 \<and> heap w1 ! 0 = dict_3_9_1
      \<and> heap w3 ! 0 = dict_3_9_1\<lparr> k_comes_from := Some (Some ''/opt/py/3.9.1''),
            k_name := Some (Some ''3.9.1''), k_executable := Some (Some ''/opt/py/3.9.1'') \<rparr>
      \<and> heap w3 ! 0 \<noteq> heap w1 ! 0)"
  by code_simp

text \<open>
  What the shared dictionary does to another instance: after the same two calls, the
  lazy read of \<open>minor\<close> on the version of \<open>/opt/py/3.9.1/bin/python\<close> probes that
  executable, gets the dictionary of \<open>3.9.1\<close> from the cache, and stores the directory's
  path and name as the instance's own \<open>executable\<close> and \<open>name\<close>.
\<close>

lemma lazy_read_takes_foreign_path:
  "(case parse example_env empty_world ''3.9.1'' of (r1, w1) \<Rightarrow>
    case from_path example_env w1 dir_3_9_1 None True None of (r2, w2) \<Rightarrow>
    case getattribute example_env Minor unprobed_python w2 of (r3, w3) \<Rightarrow>
      executable unprobed_python = Some ''/opt/py/3.9.1/bin/python''
      \<and> (case r3 of
             Inl e \<Rightarrow> False
           | Inr (mn, self1) \<Rightarrow>
               mn = Some 9 \<and> executable self1 = Some ''/opt/py/3.9.1''
               \<and> name self1 = Some ''3.9.1''))"
  by code_simp

subsection \<open>Merging two version indexes\<close>

lemma merge_step_eq:
  "merge_step vs (k, es) =
     (case map_of vs k of None \<Rightarrow> AList.update k es vs
      | Some cur \<Rightarrow> AList.update k (merged_list cur es) vs)"
  by (auto simp: merge_step_def Let_def merged_list_def split: option.splits intro!: filter_cong
      arg_cong[where f="\<lambda>l. AList.update k l vs"])

lemma merge_step_keys:
  "map fst (merge_step vs (k, es)) =
     (if k \<in> fst ` set vs then map fst vs else map fst vs @ [k])"
  by (auto simp: merge_step_eq update_keys split: option.splits dest: map_of_SomeD
      simp: map_of_eq_None_iff[symmetric])

lemma merge_step_map_of:
  "map_of (merge_step vs (k, es)) k' =
     (if k' = k then (case map_of vs k of None \<Rightarrow> Some es | Some cur \<Rightarrow> Some (merged_list cur es))
      else map_of vs k')"
  by (simp add: merge_step_eq update_conv' split: option.splits)

lemma fold_merge_keys:
  "distinct (map fst xs) \<Longrightarrow>
   map fst (fold (\<lambda>item vs. merge_step vs item) xs vs)
     = map fst vs @ filter (\<lambda>k. k \<notin> fst ` set vs) (map fst xs)"
proof (induction xs arbitrary: vs)
  case Nil
  then show ?case by simp
next
  case (Cons x xs)
  obtain k es where x: "x = (k, es)" by (cases x)
  have d: "distinct (map fst xs)" and k: "k \<notin> fst ` set xs" using Cons.prems x by auto
  have keys: "fst ` set (merge_step vs (k, es)) = insert k (fst ` set vs)"
    using merge_step_keys[of vs k es] 
    by (metis (no_types, lifting) insert_absorb list.set_map set_append list.simps(15) Un_insert_right
        sup_bot.right_neutral list.set(1))
  have f: "filter (\<lambda>k'. k' \<noteq> k \<and> k' \<notin> fst ` set vs) (map fst xs)
         = filter (\<lambda>k'. k' \<notin> fst ` set vs) (map fst xs)"
    by (rule filter_cong) (use k in auto)
  show ?case
    using Cons.IH[OF d, of "merge_step vs (k, es)"]
    by (simp add: x keys f merge_step_keys)
qed

lemma fold_merge_map_of:
  "distinct (map fst xs) \<Longrightarrow>
   map_of (fold (\<lambda>item vs. merge_step vs item) xs vs) k
     = (case map_of xs k of
          None \<Rightarrow> map_of vs k
        | Some es \<Rightarrow> (case map_of vs k of None \<Rightarrow> Some es | Some cur \<Rightarrow> Some (merged_list cur es)))"
proof (induction xs arbitrary: vs)
  case Nil
  then show ?case by simp
next
  case (Cons x xs)
  obtain k0 es0 where x: "x = (k0, es0)" by (cases x)
  have d: "distinct (map fst xs)" and k0: "map_of xs k0 = None"
    using Cons.prems x by (auto simp: map_of_eq_None_iff)
  show ?case
    using Cons.IH[OF d, of "merge_step vs (k0, es0)"] k0
    by (auto simp: x merge_step_map_of split: option.splits)
qed

lemma fold_merge_fixed:
  "(\<forall>(k, es) \<in> set ys. \<exists>cur. map_of vs k = Some cur \<and> set (map pe_path es) \<subseteq> set (map pe_path cur))
   \<Longrightarrow> fold (\<lambda>item vs. merge_step vs item) ys vs = vs"
proof (induction ys)
  case Nil
  then show ?case by simp
next
  case (Cons y ys)
  obtain k es where y: "y = (k, es)" by (cases y)
  obtain cur where c: "map_of vs k = Some cur" "set (map pe_path es) \<subseteq> set (map pe_path cur)"
    using Cons.prems y by auto
  have "filter (\<lambda>e. pe_path e \<notin> set (map pe_path cur)) es = []"
    using c(2) by (auto simp: filter_empty_conv)
  then have "merge_step vs (k, es) = vs"
    using c(1) by (simp add: merge_step_eq merged_list_def update_triv)
  then show ?case using Cons y by simp
qed

text \<open>
  C4. \<open>merge\<close> is order-stable and idempotent. A key present locally keeps its entries
  in place, followed by the entries of the other index under that key whose path is
  not already there; a key absent locally takes the other index's list; the local keys
  keep their order and the new keys follow in the other index's order; and merging the
  same index a second time changes nothing. The other index is a dictionary: its keys
  are distinct.
\<close>

theorem merge_order_stable_idempotent:
  assumes "distinct (map fst (versions target))"
  shows "(\<forall>k cur. map_of (versions self) k = Some cur \<longrightarrow>
            map_of (versions (merge self target)) k
              = Some (cur @ filter (\<lambda>e. pe_path e \<notin> set (map pe_path cur))
                              (case map_of (versions target) k of None \<Rightarrow> [] | Some es \<Rightarrow> es)))
       \<and> (\<forall>k. map_of (versions self) k = None \<longrightarrow>
            map_of (versions (merge self target)) k = map_of (versions target) k)
       \<and> map fst (versions (merge self target))
           = map fst (versions self)
             @ filter (\<lambda>k. k \<notin> fst ` set (versions self)) (map fst (versions target))
       \<and> merge (merge self target) target = merge self target"
proof (intro conjI allI impI)
  fix k cur assume "map_of (versions self) k = Some cur"
  then show "map_of (versions (merge self target)) k
              = Some (cur @ filter (\<lambda>e. pe_path e \<notin> set (map pe_path cur))
                              (case map_of (versions target) k of None \<Rightarrow> [] | Some es \<Rightarrow> es))"
    by (simp add: merge_def fold_merge_map_of[OF assms] merged_list_def split: option.splits)
next
  fix k assume "map_of (versions self) k = None"
  then show "map_of (versions (merge self target)) k = map_of (versions target) k"
    by (simp add: merge_def fold_merge_map_of[OF assms] split: option.splits)
next
  show "map fst (versions (merge self target))
           = map fst (versions self)
             @ filter (\<lambda>k. k \<notin> fst ` set (versions self)) (map fst (versions target))"
    by (simp add: merge_def fold_merge_keys[OF assms])
next
  let ?m = "fold (\<lambda>item vs. merge_step vs item) (versions target) (versions self)"
  have "\<exists>cur. map_of ?m k = Some cur \<and> set (map pe_path es) \<subseteq> set (map pe_path cur)"
    if "(k, es) \<in> set (versions target)" for k es
  proof -
    have "map_of (versions target) k = Some es" using that assms by simp
    then show ?thesis
      by (auto simp: fold_merge_map_of[OF assms] merged_list_def split: option.splits)
  qed
  then have "fold (\<lambda>item vs. merge_step vs item) (versions target) ?m = ?m"
    by (intro fold_merge_fixed) auto
  then show "merge (merge self target) target = merge self target"
    by (simp add: merge_def)
qed


theorem merge_order_stable_idempotent_witness:
  "distinct (map fst (versions \<lparr>versions = [(key_3_9_1, [python_3_9_1, python3_3_9_1])],
                                 default_factory = None\<rparr>))
   \<and> versions (merge \<lparr>versions = [(key_3_9_1, [python_3_9_1])], default_factory = None\<rparr>
                 \<lparr>versions = [(key_3_9_1, [python_3_9_1, python3_3_9_1])],
                    default_factory = None\<rparr>)
       = [(key_3_9_1, [python_3_9_1, python3_3_9_1])]
   \<and> merge (merge \<lparr>versions = [(key_3_9_1, [python_3_9_1])], default_factory = None\<rparr>
                 \<lparr>versions = [(key_3_9_1, [python_3_9_1, python3_3_9_1])],
                    default_factory = None\<rparr>)
            \<lparr>versions = [(key_3_9_1, [python_3_9_1, python3_3_9_1])], default_factory = None\<rparr>
       = merge \<lparr>versions = [(key_3_9_1, [python_3_9_1])], default_factory = None\<rparr>
                 \<lparr>versions = [(key_3_9_1, [python_3_9_1, python3_3_9_1])],
                    default_factory = None\<rparr>"
proof -
  have d: "distinct (map fst (versions \<lparr>versions = [(key_3_9_1, [python_3_9_1, python3_3_9_1])],
                                 default_factory = None\<rparr>))" by simp
  have m: "versions (merge \<lparr>versions = [(key_3_9_1, [python_3_9_1])], default_factory = None\<rparr>
                 \<lparr>versions = [(key_3_9_1, [python_3_9_1, python3_3_9_1])],
                    default_factory = None\<rparr>)
       = [(key_3_9_1, [python_3_9_1, python3_3_9_1])]" by code_simp
  show ?thesis
    using merge_order_stable_idempotent[OF d,
            of "\<lparr>versions = [(key_3_9_1, [python_3_9_1])], default_factory = None\<rparr>"] d m
    by simp
qed

subsection \<open>Adding a location to the index\<close>

text \<open>
  C5 fails on the code. \<open>VersionMap()\<close> holds a \<open>defaultdict\<close> without a default factory,
  so \<open>self.versions[version.version_tuple]\<close> raises \<open>KeyError\<close> for a location whose
  dedup key is not yet in the index, where the claim has the location appended.
\<close>

theorem add_entry_new_map_raises:
  "add_entry example_env new_VersionMap python_3_9_1 empty_world = (Inl KeyError, empty_world)"
  by code_simp

text \<open>
  With the factory the lookup was written for (\<open>defaultdict(list)\<close>) and a version that
  needs no probe, \<open>add_entry\<close> does what the claim says: it leaves the index alone when the
  path is already under the key and appends the location otherwise, so that no key
  ever holds two locations with one path.
\<close>

lemma version_tuple_no_probe:
  "needs_no_probe v \<Longrightarrow>
   version_tuple E v w
     = (Inr ((major v, minor v, patch v, is_prerelease v, is_devrelease v, is_debug v), v), w)"
  by (simp add: version_tuple_def Let_def getattribute_no_probe stored_def then_do_def)

lemma update_appended_default:
  "map_of vs k = None \<Longrightarrow> AList.update k x (vs @ [(k, y)]) = AList.update k x vs"
  by (induction vs) (auto split: if_splits)

lemma add_entry_list_factory:
  assumes "as_python entry = Some v" and "needs_no_probe v" and "default_factory self = Some []"
  shows "add_entry E self entry w =
     (let k = (major v, minor v, patch v, is_prerelease v, is_devrelease v, is_debug v);
          cur = (case map_of (versions self) k of None \<Rightarrow> [] | Some l \<Rightarrow> l)
      in if pe_path entry \<in> set (map pe_path cur) then (Inr (self, entry), w)
         else (Inr (self\<lparr>versions := AList.update k (cur @ [entry]) (versions self)\<rparr>, entry), w))"
proof -
  define k where "k = (major v, minor v, patch v, is_prerelease v, is_devrelease v, is_debug v)"
  have e: "entry\<lparr>as_python := Some v\<rparr> = entry" using assms(1) by simp
  have t: "version_tuple E v w' = (Inr (k, v), w')" for w'
    using assms(2) by (simp add: version_tuple_no_probe k_def)
  show ?thesis
  proof (cases "map_of (versions self) k")
    case None
    then show ?thesis
      using assms(1,3) unfolding k_def[symmetric] Let_def
      by (simp add: add_entry_def t then_do_def getitem_def e map_add_def update_appended_default)
  next
    case (Some l)
    then show ?thesis
      using assms(1,3) unfolding k_def[symmetric] Let_def
      by (simp add: add_entry_def t then_do_def getitem_def e)
  qed
qed


lemma list_all_update:
  "list_all P vs \<Longrightarrow> P (k, v) \<Longrightarrow> list_all P (AList.update k v vs)"
  by (induction vs) auto

lemma add_entry_keeps_paths_distinct:
  assumes "as_python entry = Some v" and "needs_no_probe v" and "default_factory self = Some []"
      and inv: "list_all (\<lambda>(k, l). distinct (map pe_path l)) (versions self)"
      and res: "add_entry E self entry w = (Inr (self', entry'), w')"
  shows "list_all (\<lambda>(k, l). distinct (map pe_path l)) (versions self')"
proof -
  define k where "k = (major v, minor v, patch v, is_prerelease v, is_devrelease v, is_debug v)"
  define cur where "cur = (case map_of (versions self) k of None \<Rightarrow> [] | Some l \<Rightarrow> l)"
  have d: "distinct (map pe_path cur)"
  proof (cases "map_of (versions self) k")
    case None
    then show ?thesis by (simp add: cur_def)
  next
    case (Some l)
    then have "(k, l) \<in> set (versions self)" by (rule map_of_SomeD)
    then show ?thesis using inv Some by (auto simp: cur_def list_all_iff)
  qed
  have L: "add_entry E self entry w =
      (if pe_path entry \<in> set (map pe_path cur) then (Inr (self, entry), w)
       else (Inr (self\<lparr>versions := AList.update k (cur @ [entry]) (versions self)\<rparr>, entry), w))"
    using add_entry_list_factory[OF assms(1-3), of E w]
    unfolding Let_def k_def[symmetric] cur_def[symmetric] .
  show ?thesis
  proof (cases "pe_path entry \<in> set (map pe_path cur)")
    case True
    then have "self' = self" using res L by auto
    then show ?thesis using inv by simp
  next
    case False
    then have "self' = self\<lparr>versions := AList.update k (cur @ [entry]) (versions self)\<rparr>"
      using res L by auto
    moreover have "distinct (map pe_path (cur @ [entry]))" using d False by simp
    ultimately show ?thesis using inv by (simp add: list_all_update)
  qed
qed

subsection \<open>Root ordering\<close>

lemma remove_if_present:
  "distinct vp \<Longrightarrow> (if x \<in> set vp then remove1 x vp else vp) = filter (\<lambda>p. p \<noteq> x) vp"
proof (cases "x \<in> set vp")
  case True
  assume "distinct vp"
  then show ?thesis using True
    by (simp add: distinct_remove1_removeAll removeAll_filter_not_eq) (rule filter_cong, auto)
next
  case False
  then have "filter (\<lambda>p. p \<noteq> x) vp = vp" by (intro filter_True) auto
  then show ?thesis using False by simp
qed

lemma fold_remove_distinct:
  "distinct vp \<Longrightarrow>
   fold (\<lambda>x vp. if x \<in> set vp then remove1 x vp else vp) xs vp = filter (\<lambda>p. p \<notin> set xs) vp"
proof (induction xs arbitrary: vp)
  case Nil
  then show ?case by simp
next
  case (Cons x xs)
  have d: "distinct (filter (\<lambda>p. p \<noteq> x) vp)" using Cons.prems by simp
  have "fold (\<lambda>x vp. if x \<in> set vp then remove1 x vp else vp) (x # xs) vp
        = filter (\<lambda>p. p \<notin> set xs) (filter (\<lambda>p. p \<noteq> x) vp)"
    using Cons.IH[OF d] remove_if_present[OF Cons.prems, of x] by simp
  also have "\<dots> = filter (\<lambda>p. p \<notin> set (x # xs)) vp"
    by (auto intro!: filter_cong)
  finally show ?case .
qed

lemma by_name_Some:
  "map_of (rev (map (\<lambda>v. (path_name v, v)) vp)) n = Some p \<Longrightarrow> p \<in> set vp \<and> path_name p = n"
  by (auto dest!: map_of_SomeD)

lemma by_name_dom:
  "(\<exists>y. map_of (rev (map (\<lambda>v. (path_name v, v)) vp)) n = Some y) = (n \<in> path_name ` set vp)"
proof -
  have "(map_of (rev (map (\<lambda>v. (path_name v, v)) vp)) n = None) = (n \<notin> path_name ` set vp)"
    by (simp add: map_of_eq_None_iff image_image)
  then show ?thesis by (cases "map_of (rev (map (\<lambda>v. (path_name v, v)) vp)) n") auto
qed

lemma get_version_order_eq:
  assumes "distinct (glob FS (root self) (version_glob_path self))"
  shows "get_version_order FS self =
     map (\<lambda>v. the (map_of (rev (map (\<lambda>v. (path_name v, v)) (kept_matches FS self))) v))
       (filter (\<lambda>v. v \<in> path_name ` set (kept_matches FS self)) (manager_order FS self))
     @ filter (\<lambda>p. p \<notin> set (map (\<lambda>v. the (map_of (rev (map (\<lambda>v. (path_name v, v)) (kept_matches FS self))) v))
       (filter (\<lambda>v. v \<in> path_name ` set (kept_matches FS self)) (manager_order FS self))))
         (kept_matches FS self)"
proof -
  have d: "distinct (kept_matches FS self)" using assms by (simp add: kept_matches_def)
  show ?thesis
    unfolding get_version_order_def Let_def kept_matches_def[symmetric]
    by (simp add: fold_remove_distinct[OF d] manager_order_def by_name_dom del: set_map)
qed

text \<open>
  C9. The list \<open>get_version_order\<close> returns holds exactly the glob matches whose own
  name and whose parent's name are not \<open>envs\<close>. It starts with the matches that the
  manager of the root names in its declared order, in that order, and goes on with the
  remaining matches in glob order. The glob yields every path once.
\<close>

theorem get_version_order_contents_and_order:
  assumes "distinct (glob FS (root self) (version_glob_path self))"
  shows "set (get_version_order FS self)
           = {p \<in> set (glob FS (root self) (version_glob_path self)).
                path_name p \<noteq> ''envs'' \<and> path_name (path_parent p) \<noteq> ''envs''}
       \<and> (\<exists>ordered.
            get_version_order FS self
              = ordered @ filter (\<lambda>p. p \<notin> set ordered) (kept_matches FS self)
            \<and> set ordered \<subseteq> set (kept_matches FS self)
            \<and> map path_name ordered
                = filter (\<lambda>v. v \<in> path_name ` set (kept_matches FS self)) (manager_order FS self))"
proof -
  let ?by_name = "map_of (rev (map (\<lambda>v. (path_name v, v)) (kept_matches FS self)))"
  let ?named = "filter (\<lambda>v. v \<in> path_name ` set (kept_matches FS self)) (manager_order FS self)"
  let ?ordered = "map (\<lambda>v. the (?by_name v)) ?named"
  have E: "get_version_order FS self
             = ?ordered @ filter (\<lambda>p. p \<notin> set ?ordered) (kept_matches FS self)"
    by (rule get_version_order_eq[OF assms])
  have each: "the (?by_name v) \<in> set (kept_matches FS self) \<and> path_name (the (?by_name v)) = v"
    if "v \<in> path_name ` set (kept_matches FS self)" for v
  proof -
    from that by_name_dom[of "kept_matches FS self" v]
    obtain p where "?by_name v = Some p" by blast
    then show ?thesis using by_name_Some[of "kept_matches FS self" v p] by simp
  qed
  have sub: "set ?ordered \<subseteq> set (kept_matches FS self)" using each by auto
  have names: "map path_name ?ordered = ?named"
  proof -
    have "map (path_name \<circ> (\<lambda>v. the (?by_name v))) ?named = ?named"
      by (rule map_idI) (use each in auto)
    then show ?thesis by simp
  qed
  have "set (get_version_order FS self) = set (kept_matches FS self)"
    unfolding E using sub by auto
  moreover have "set (kept_matches FS self)
           = {p \<in> set (glob FS (root self) (version_glob_path self)).
                path_name p \<noteq> ''envs'' \<and> path_name (path_parent p) \<noteq> ''envs''}"
    by (auto simp: kept_matches_def)
  ultimately show ?thesis using E sub names by blast
qed

theorem get_version_order_contents_and_order_witness:
  "distinct (glob example_fs (root example_finder) (version_glob_path example_finder))
   \<and> get_version_order example_fs example_finder
       = [''/opt/pyenv/versions/3.9.1'', ''/opt/pyenv/versions/custom'']
   \<and> set (get_version_order example_fs example_finder)
       = {p \<in> set (glob example_fs (root example_finder) (version_glob_path example_finder)).
            path_name p \<noteq> ''envs'' \<and> path_name (path_parent p) \<noteq> ''envs''}"
proof -
  have d: "distinct (glob example_fs (root example_finder) (version_glob_path example_finder))"
    by code_simp
  have g: "get_version_order example_fs example_finder
       = [''/opt/pyenv/versions/3.9.1'', ''/opt/pyenv/versions/custom'']" by code_simp
  show ?thesis
    using get_version_order_contents_and_order[OF d] d g by simp
qed

subsection \<open>Version resolution per candidate\<close>

text \<open>
  C2 fails on the code. The directory \<open>custom\<close> has a name that does not parse and holds
  a runnable Python 3.10.0, so the fallback has a version to offer; yet the tolerant
  engine yields nothing for \<open>custom\<close>, and the strict engine ends with
  \<open>InvalidPythonVersion\<close>. The handler tests \<open>version\<close>, which is still \<open>None\<close>, where it
  means the \<open>version_entry\<close> it has just looked up.
\<close>

theorem unparsable_name_skipped_despite_fallback:
  "entry_pythons example_fs ''/opt/pyenv/versions/custom/bin'' = [python_3_10_0]
   \<and> fst (parse example_env empty_world ''custom'') = Inl InvalidPythonVersion
   \<and> fst (iter_versions example_env example_fs example_finder empty_world)
       = ([(''/opt/pyenv/versions/3.9.1'',
            PathEntry_create example_fs ''/opt/pyenv/versions/3.9.1/bin'' ''3.9.1'',
            (Some 3, Some 9, Some 1, Some False, Some False, Some False))], None)
   \<and> fst (iter_versions example_env example_fs (example_finder\<lparr>ignore_unsupported := False\<rparr>)
            empty_world)
       = ([(''/opt/pyenv/versions/3.9.1'',
            PathEntry_create example_fs ''/opt/pyenv/versions/3.9.1/bin'' ''3.9.1'',
            (Some 3, Some 9, Some 1, Some False, Some False, Some False))],
          Some InvalidPythonVersion)"
  by code_simp

subsection \<open>The cache of versions\<close>

lemma fold_update_keys_distinct:
  "distinct (map fst c) \<Longrightarrow>
   distinct (map fst (fold (\<lambda>(p, entry, t) c. AList.update t entry c) ys c))"
  by (induction ys arbitrary: c) (auto simp: distinct_update)

lemma fold_update_map_of:
  "map_of (fold (\<lambda>(p, entry, t) c. AList.update t entry c) ys c) k
     = (case map_of (rev (map (\<lambda>(p, entry, t). (t, entry)) ys)) k of
          None \<Rightarrow> map_of c k | Some e \<Rightarrow> Some e)"
proof (induction ys arbitrary: c)
  case Nil
  then show ?case by simp
next
  case (Cons y ys)
  obtain p e t where y: "y = (p, e, t)" by (cases y)
  show ?case
    using Cons[of "AList.update t e c"]
    by (auto simp: y update_conv' map_add_def split: option.splits)
qed

lemma map_of_rev_last:
  "t \<notin> (\<lambda>(p, entry, t). t) ` set post \<Longrightarrow>
   map_of (rev (map (\<lambda>(p, entry, t). (t, entry)) (pre @ (p, e, t) # post))) t = Some e"
proof -
  have "map_of (rev (map (\<lambda>(p, entry, t). (t, entry)) post)) t = None"
    if "t \<notin> (\<lambda>(p, entry, t). t) ` set post"
    using that by (auto simp: map_of_eq_None_iff image_image split: prod.splits)
       (metis (mono_tags, lifting) case_prod_conv image_iff prod.collapse fst_conv)
  then show "t \<notin> (\<lambda>(p, entry, t). t) ` set post \<Longrightarrow> ?thesis"
    by (simp add: map_add_def)
qed


lemma fold_update_dom:
  "fst ` set (fold (\<lambda>(p, entry, t) c. AList.update t entry c) ys c)
     = fst ` set c \<union> (\<lambda>(p, entry, t). t) ` set ys"
proof (induction ys arbitrary: c)
  case Nil
  then show ?case by simp
next
  case (Cons y ys)
  obtain p e t where y: "y = (p, e, t)" by (cases y)
  show ?case
    using Cons[of "AList.update t e c"] by (simp add: y dom_update)
qed

text \<open>
  C10. When \<open>_versions\<close> is empty, the property \<open>versions\<close> leaves in it one entry for every
  key that \<open>_iter_versions\<close> yielded, and for each key the entry of the last candidate
  that yielded it, also when the generator ended with an exception.
\<close>

theorem versions_cache_last_wins:
  assumes "cache_versions self = []"
      and "iter_versions E FS self w = ((ys, err), w1)"
  shows "\<exists>r self'. finder_versions E FS self w = ((r, self'), w1)
           \<and> (case err of None \<Rightarrow> r = Inr (cache_versions self') | Some e \<Rightarrow> r = Inl e)
           \<and> distinct (map fst (cache_versions self'))
           \<and> fst ` set (cache_versions self') = (\<lambda>(p, entry, t). t) ` set ys
           \<and> (\<forall>pre p e t post.
                 ys = pre @ (p, e, t) # post \<and> t \<notin> (\<lambda>(p, entry, t). t) ` set post
                 \<longrightarrow> map_of (cache_versions self') t = Some e)"
proof -
  let ?filled = "fold (\<lambda>(p, entry, t) c. AList.update t entry c) ys []"
  let ?self' = "(store_roots (iter_version_bases E FS self) self)\<lparr>cache_versions := ?filled\<rparr>"
  have F: "finder_versions E FS self w
             = ((case err of None \<Rightarrow> Inr ?filled | Some e \<Rightarrow> Inl e, ?self'), w1)"
    using assms by (simp add: finder_versions_def Let_def split: option.splits)
  have d: "distinct (map fst ?filled)" by (rule fold_update_keys_distinct) simp
  have k: "fst ` set ?filled = (\<lambda>(p, entry, t). t) ` set ys" by (simp add: fold_update_dom)
  have l: "map_of ?filled t = Some e"
    if "ys = pre @ (p, e, t) # post" "t \<notin> (\<lambda>(p, entry, t). t) ` set post" for pre p e t post
  proof -
    have m: "map_of (rev (map (\<lambda>(p, entry, t). (t, entry)) ys)) t = Some e"
      unfolding that(1) by (rule map_of_rev_last[OF that(2)])
    show ?thesis by (simp only: fold_update_map_of m option.case)
  qed
  show ?thesis
  proof (rule exI[where x="case err of None \<Rightarrow> Inr ?filled | Some e \<Rightarrow> Inl e"],
         rule exI[where x="?self'"], intro conjI allI impI)
    show "finder_versions E FS self w
             = ((case err of None \<Rightarrow> Inr ?filled | Some e \<Rightarrow> Inl e, ?self'), w1)"
      by (rule F)
    show "case err of
            None \<Rightarrow> (case err of None \<Rightarrow> Inr ?filled | Some e \<Rightarrow> Inl e)
                      = Inr (cache_versions ?self')
          | Some e \<Rightarrow> (case err of None \<Rightarrow> Inr ?filled | Some e \<Rightarrow> Inl e) = Inl e"
      by (cases err) simp_all
    show "distinct (map fst (cache_versions ?self'))" using d by simp
    show "fst ` set (cache_versions ?self') = (\<lambda>(p, entry, t). t) ` set ys" using k by simp
    fix pre p e t post
    assume "ys = pre @ (p, e, t) # post \<and> t \<notin> (\<lambda>(p, entry, t). t) ` set post"
    then show "map_of (cache_versions ?self') t = Some e" using l[of pre p e t post] by simp
  qed
qed

theorem versions_cache_last_wins_witness:
  "cache_versions (example_finder\<lparr>version_glob_path := ''*/*''\<rparr>) = []
   \<and> fst (iter_versions example_env example_fs (example_finder\<lparr>version_glob_path := ''*/*''\<rparr>)
            empty_world)
       = ([(''/opt/pyenv/b/3.9.1'', PathEntry_create example_fs ''/opt/pyenv/b/3.9.1/bin'' ''3.9.1'',
            (Some 3, Some 9, Some 1, Some False, Some False, Some False)),
           (''/opt/pyenv/a/3.9.1'', PathEntry_create example_fs ''/opt/pyenv/a/3.9.1/bin'' ''3.9.1'',
            (Some 3, Some 9, Some 1, Some False, Some False, Some False))], None)
   \<and> fst (fst (finder_versions example_env example_fs
                  (example_finder\<lparr>version_glob_path := ''*/*''\<rparr>) empty_world))
       = Inr [((Some 3, Some 9, Some 1, Some False, Some False, Some False),
               PathEntry_create example_fs ''/opt/pyenv/a/3.9.1/bin'' ''3.9.1'')]"
proof -
  have h1: "cache_versions (example_finder\<lparr>version_glob_path := ''*/*''\<rparr>) = []" by code_simp
  obtain w1 where h2: "iter_versions example_env example_fs
        (example_finder\<lparr>version_glob_path := ''*/*''\<rparr>) empty_world
       = (([(''/opt/pyenv/b/3.9.1'', PathEntry_create example_fs ''/opt/pyenv/b/3.9.1/bin'' ''3.9.1'',
            (Some 3, Some 9, Some 1, Some False, Some False, Some False)),
           (''/opt/pyenv/a/3.9.1'', PathEntry_create example_fs ''/opt/pyenv/a/3.9.1/bin'' ''3.9.1'',
            (Some 3, Some 9, Some 1, Some False, Some False, Some False))], None), w1)"
  proof -
    have "fst (iter_versions example_env example_fs
        (example_finder\<lparr>version_glob_path := ''*/*''\<rparr>) empty_world)
       = ([(''/opt/pyenv/b/3.9.1'', PathEntry_create example_fs ''/opt/pyenv/b/3.9.1/bin'' ''3.9.1'',
            (Some 3, Some 9, Some 1, Some False, Some False, Some False)),
           (''/opt/pyenv/a/3.9.1'', PathEntry_create example_fs ''/opt/pyenv/a/3.9.1/bin'' ''3.9.1'',
            (Some 3, Some 9, Some 1, Some False, Some False, Some False))], None)" by code_simp
    then show ?thesis using that by (metis prod.collapse)
  qed
  have r: "fst (fst (finder_versions example_env example_fs
                  (example_finder\<lparr>version_glob_path := ''*/*''\<rparr>) empty_world))
       = Inr [((Some 3, Some 9, Some 1, Some False, Some False, Some False),
               PathEntry_create example_fs ''/opt/pyenv/a/3.9.1/bin'' ''3.9.1'')]" by code_simp
  show ?thesis
    using versions_cache_last_wins[OF h1 h2] h1 h2 r by simp
qed

subsection \<open>The query for all versions\<close>

lemma key_lt_less:
  "comparable a b \<Longrightarrow> key_lt a b = Inr (a < b)"
  by (cases a; cases b)
     (auto simp: comparable_def key_lt_def less_prod_def less_option_def
           split: if_splits option.splits)

lemma sorted_reverse_descending:
  assumes "sorted_reverse xs = Inr s"
  shows "sorted_wrt (\<lambda>a b. key_lt (snd a) (snd b) = Inr False) s"
    and "set s = set xs" and "length s = length xs"
    and "filter (\<lambda>y. snd y = k) s = filter (\<lambda>y. snd y = k) xs"
proof -
  have c: "list_all (\<lambda>a. list_all (\<lambda>b. comparable (snd a) (snd b)) xs) xs"
    and s: "s = rev (sort_key snd (rev xs))"
    using assms by (auto simp: sorted_reverse_def split: if_splits)
  show "set s = set xs" "length s = length xs" by (simp_all add: s)
  have "filter (\<lambda>y. snd y = k) s = rev (filter (\<lambda>y. snd y = k) (sort_key snd (rev xs)))"
    by (simp add: s rev_filter)
  also have "\<dots> = rev (filter (\<lambda>y. snd y = k) (rev xs))" by (simp add: sort_key_stable)
  also have "\<dots> = filter (\<lambda>y. snd y = k) xs" by (simp add: rev_filter)
  finally show "filter (\<lambda>y. snd y = k) s = filter (\<lambda>y. snd y = k) xs" .
  have "sorted (map snd (sort_key snd (rev xs)))" by (rule sorted_sort_key)
  then have "sorted_wrt (\<lambda>a b. snd a \<le> snd b) (sort_key snd (rev xs))"
    by (simp add: sorted_wrt_map)
  then have d: "sorted_wrt (\<lambda>a b. snd b \<le> snd a) s"
    by (simp add: s sorted_wrt_rev)
  have "key_lt (snd a) (snd b) = Inr False"
    if "a \<in> set s" "b \<in> set s" "snd b \<le> snd a" for a b
  proof -
    have "comparable (snd a) (snd b)" using that(1,2) c by (simp add: s list_all_iff)
    then show ?thesis using that(3) by (simp add: key_lt_less not_less)
  qed
  then show "sorted_wrt (\<lambda>a b. key_lt (snd a) (snd b) = Inr False) s"
    using d by (auto intro: sorted_wrt_mono_rel[rotated])
qed

lemma version_sort_keys_no_probe:
  "\<forall>p \<in> set ps. \<exists>v. as_python p = Some v \<and> needs_no_probe v \<Longrightarrow>
   version_sort_keys E ps w = (Inr (map (\<lambda>p. (p, rank_key (the (as_python p)))) ps), w)"
proof (induction ps)
  case Nil
  then show ?case by simp
next
  case (Cons p ps)
  obtain v where v: "as_python p = Some v" "needs_no_probe v" using Cons.prems by auto
  have e: "p\<lparr>as_python := Some v\<rparr> = p" using v(1) by simp
  show ?case
    using Cons v by (simp add: version_sort_no_probe then_do_def rank_key_def e)
qed


lemma get_architecture_again:
  "get_architecture E self = (a, s) \<Longrightarrow> get_architecture E s = (a, s)"
  by (auto simp: get_architecture_def Let_def truthy_str_def split: if_splits option.splits)

lemma matches_after_architecture:
  assumes "truthy_str (q_arch q)" and "get_architecture E self = (a, s)"
  shows "matches E s w q = matches E self w q"
  by (simp only: matches_def assms get_architecture_again[OF assms(2)] if_True)

lemma returns_instance_if:
  assumes "c \<Longrightarrow> \<exists>b. x = (Inr (b, s), w)"
      and "\<not> c \<Longrightarrow> \<exists>b. y = (Inr (b, s), w)"
  shows "\<exists>b. (if c then x else y) = (Inr (b :: bool, s :: PythonVersion), w :: world)"
  using assms by (cases c) simp_all

lemma matches_no_probe_instance:
  assumes "needs_no_probe self" and "q_arch q \<noteq> Some []"
  shows "\<exists>b. matches E self w q
           = (Inr (b, if truthy_str (q_arch q) then snd (get_architecture E self) else self), w)"
proof (cases "truthy_str (q_arch q)")
  case True
  obtain a s where g: "get_architecture E self = (a, s)" by (cases "get_architecture E self")
  have s: "needs_no_probe s" using get_architecture_no_probe[OF assms(1), of E] g by simp
  show ?thesis
    unfolding matches_def using True g
    by (simp add: lazy_eq_no_probe[OF s] then_do_def split del: if_split cong: if_cong)
       (intro returns_instance_if; blast)
next
  case False
  then have n: "q_arch q = None" using assms(2) by (cases "q_arch q") (auto simp: truthy_str_def)
  show ?thesis
    unfolding matches_def using False n
    by (simp add: lazy_eq_no_probe[OF assms(1)] then_do_def split del: if_split cong: if_cong)
       (intro returns_instance_if; blast)
qed

lemma matches_no_probe_stable:
  assumes "needs_no_probe v" and "q_arch q \<noteq> Some []"
  shows "\<exists>b v1. matches E v w q = (Inr (b, v1), w) \<and> needs_no_probe v1
           \<and> matches E v1 w q = (Inr (b, v1), w)"
proof -
  let ?v1 = "if truthy_str (q_arch q) then snd (get_architecture E v) else v"
  obtain b where m: "matches E v w q = (Inr (b, ?v1), w)"
    using matches_no_probe_instance[OF assms] by blast
  have n: "needs_no_probe ?v1" using assms(1) get_architecture_no_probe[OF assms(1), of E] by simp
  have "matches E ?v1 w q = matches E v w q"
  proof (cases "truthy_str (q_arch q)")
    case True
    then show ?thesis
      using matches_after_architecture[OF True, of E v "fst (get_architecture E v)"
              "snd (get_architecture E v)" w] by simp
  next
    case False
    then show ?thesis by simp
  qed
  then show ?thesis using m n by auto
qed


lemma matching_locations_no_probe:
  assumes "\<forall>p \<in> set ps. resolved_without_probe p" and "q_arch q \<noteq> Some []"
  shows "\<exists>found. matching_locations E q ps w = (Inr found, w)
           \<and> (\<forall>p \<in> set found. \<exists>v. as_python p = Some v \<and> needs_no_probe v
                  \<and> matches E v w (q\<lparr>q_debug := Some False\<rparr>) = (Inr (True, v), w))"
  using assms(1)
proof (induction ps)
  case Nil
  then show ?case by simp
next
  case (Cons p ps)
  then obtain found where f: "matching_locations E q ps w = (Inr found, w)"
    "\<forall>p \<in> set found. \<exists>v. as_python p = Some v \<and> needs_no_probe v
        \<and> matches E v w (q\<lparr>q_debug := Some False\<rparr>) = (Inr (True, v), w)"
    by auto
  show ?case
  proof (cases "as_python p")
    case None
    then show ?thesis using f by simp
  next
    case (Some v)
    then have n: "needs_no_probe v" using Cons.prems by (simp add: resolved_without_probe_def)
    have a: "q_arch (q\<lparr>q_debug := Some False\<rparr>) \<noteq> Some []" using assms(2) by simp
    obtain b v1 where m: "matches E v w (q\<lparr>q_debug := Some False\<rparr>) = (Inr (b, v1), w)"
      "needs_no_probe v1" "matches E v1 w (q\<lparr>q_debug := Some False\<rparr>) = (Inr (b, v1), w)"
      using matches_no_probe_stable[OF n a, of E w] by blast
    show ?thesis
      using Some f m by (auto simp: then_do_def)
  qed
qed

lemma sub_finder_all_no_probe:
  assumes "\<forall>d. \<forall>p \<in> set (entry_pythons FS d). resolved_without_probe p"
      and "q_arch q \<noteq> Some []"
  shows "\<exists>pythons. sub_finder_all E FS q ps w = (Inr pythons, w)
           \<and> (\<forall>p \<in> set (concat pythons). \<exists>v. as_python p = Some v \<and> needs_no_probe v
                  \<and> matches E v w (q\<lparr>q_debug := Some False\<rparr>) = (Inr (True, v), w))"
proof (induction ps)
  case Nil
  then show ?case by simp
next
  case (Cons path0 rest)
  obtain found where f: "matching_locations E q (entry_pythons FS (pe_path path0)) w = (Inr found, w)"
    "\<forall>p \<in> set found. \<exists>v. as_python p = Some v \<and> needs_no_probe v
        \<and> matches E v w (q\<lparr>q_debug := Some False\<rparr>) = (Inr (True, v), w)"
    using matching_locations_no_probe[of "entry_pythons FS (pe_path path0)" q E w] assms by blast
  obtain others where r: "sub_finder_all E FS q rest w = (Inr others, w)"
    "\<forall>p \<in> set (concat others). \<exists>v. as_python p = Some v \<and> needs_no_probe v
        \<and> matches E v w (q\<lparr>q_debug := Some False\<rparr>) = (Inr (True, v), w)"
    using Cons by blast
  show ?case
    using f r by (auto simp: then_do_def entry_find_all_python_versions_def)
qed

lemma sorted_by_rank:
  assumes "\<forall>p \<in> set ps. \<exists>v. as_python p = Some v \<and> needs_no_probe v"
      and "then_do (version_sort_keys E ps w) (\<lambda>keyed w2.
             case sorted_reverse keyed of Inl e \<Rightarrow> (Inl e, w2)
             | Inr s \<Rightarrow> (Inr (map fst s), w2)) = (Inr rs, w')"
  shows "w' = w" and "descending rs" and "set rs = set ps" and "length rs = length ps"
    and "filter (\<lambda>p. rank_key (the (as_python p)) = k) rs
           = filter (\<lambda>p. rank_key (the (as_python p)) = k) ps"
proof -
  let ?keyed = "map (\<lambda>p. (p, rank_key (the (as_python p)))) ps"
  have K: "version_sort_keys E ps w = (Inr ?keyed, w)"
    by (rule version_sort_keys_no_probe[OF assms(1)])
  obtain s where s: "sorted_reverse ?keyed = Inr s" and rs: "rs = map fst s" and w: "w' = w"
    using assms(2) by (auto simp: K then_do_def split: sum.splits)
  show "w' = w" by (rule w)
  note S = sorted_reverse_descending[OF s]
  have snd_fst: "snd x = rank_key (the (as_python (fst x)))" if "x \<in> set s" for x
    using that S(2) by auto
  have "sorted_wrt (\<lambda>a b. key_lt (rank_key (the (as_python (fst a))))
                             (rank_key (the (as_python (fst b)))) = Inr False) s"
    using S(1) snd_fst by (auto intro: sorted_wrt_mono_rel[rotated])
  then show "descending rs" by (simp add: descending_def rs sorted_wrt_map)
  have "fst ` set s = fst ` set ?keyed" by (simp only: S(2))
  then show "set rs = set ps" by (simp add: rs image_image)
  show "length rs = length ps" using S(3) by (simp add: rs)
  have "filter (\<lambda>p. rank_key (the (as_python p)) = k) (map fst s)
      = map fst (filter (\<lambda>y. rank_key (the (as_python (fst y))) = k) s)"
    by (simp add: filter_map comp_def)
  also have "\<dots> = map fst (filter (\<lambda>y. snd y = k) s)"
    by (rule arg_cong[where f="map fst"], rule filter_cong) (auto simp: snd_fst)
  also have "\<dots> = map fst (filter (\<lambda>y. snd y = k) ?keyed)" by (simp add: S(4))
  also have "\<dots> = filter (\<lambda>p. rank_key (the (as_python p)) = k) ps"
    by (simp add: filter_map comp_def)
  finally show "filter (\<lambda>p. rank_key (the (as_python p)) = k) rs
           = filter (\<lambda>p. rank_key (the (as_python p)) = k) ps" by (simp add: rs)
qed


lemma length_concat_option_list:
  "length (concat (map (\<lambda>x. option_list (f x)) xs)) \<le> length xs"
  by (induction xs) (auto simp: option_list_def split: option.splits)

lemma first_or_None_in_set: "first_or_None xs = Some x \<Longrightarrow> x \<in> set xs"
  by (cases xs) (auto simp: first_or_None_def)

lemma first_locations_resolved:
  assumes "\<forall>d. \<forall>p \<in> set (entry_pythons FS d). resolved_without_probe p"
      and "p \<in> set (first_locations E FS self)"
  shows "\<exists>v. as_python p = Some v \<and> needs_no_probe v"
proof -
  from assms(2) have n: "as_python p \<noteq> None"
    and "p \<in> set (concat (map (\<lambda>(_, base). option_list (first_or_None (entry_pythons FS (pe_path base))))
                               (iter_version_bases E FS self)))"
    by (simp_all add: first_locations_def expand_paths_def)
  then obtain b :: PathEntry where
    "p \<in> set (option_list (first_or_None (entry_pythons FS (pe_path b))))"
    by (fastforce simp: case_prod_unfold)
  then have "first_or_None (entry_pythons FS (pe_path b)) = Some p"
    by (cases "first_or_None (entry_pythons FS (pe_path b))") (simp_all add: option_list_def)
  then have "p \<in> set (entry_pythons FS (pe_path b))" by (rule first_or_None_in_set)
  then have "resolved_without_probe p" using assms(1) by blast
  then show ?thesis using n by (cases "as_python p") (auto simp: resolved_without_probe_def)
qed

lemma find_all_python_versions_general:
  assumes "\<forall>d. \<forall>p \<in> set (entry_pythons FS d). resolved_without_probe p"
      and "find_all_python_versions E FS find_one self q w = (Inr rs, w')"
  shows "(\<not> any_constraint q \<longrightarrow>
            descending rs
            \<and> set rs = set (first_locations E FS self)
            \<and> length rs = length (first_locations E FS self)
            \<and> length rs \<le> length (iter_version_bases E FS self)
            \<and> (\<forall>k. filter (\<lambda>p. rank_key (the (as_python p)) = k) rs
                     = filter (\<lambda>p. rank_key (the (as_python p)) = k) (first_locations E FS self)))
       \<and> (any_constraint q \<and> is_dir self \<and> q_arch q \<noteq> Some [] \<longrightarrow>
            descending rs
            \<and> (\<forall>p \<in> set rs. \<exists>v. as_python p = Some v
                   \<and> matches E v w' (q\<lparr>q_debug := Some False\<rparr>) = (Inr (True, v), w')))"
proof (intro conjI impI)
  assume nc: "\<not> any_constraint q"
  have R: "then_do (version_sort_keys E (first_locations E FS self) w) (\<lambda>keyed w2.
             case sorted_reverse keyed of Inl e \<Rightarrow> (Inl e, w2)
             | Inr s \<Rightarrow> (Inr (map fst s), w2)) = (Inr rs, w')"
    using assms(2) nc
    by (simp add: find_all_python_versions_def first_locations_def then_do_def)
  have res: "\<forall>p \<in> set (first_locations E FS self). \<exists>v. as_python p = Some v \<and> needs_no_probe v"
    using first_locations_resolved[OF assms(1)] by blast
  note S = sorted_by_rank[OF res R]
  show "descending rs" by (rule S(2))
  show "set rs = set (first_locations E FS self)" by (rule S(3))
  show "length rs = length (first_locations E FS self)" by (rule S(4))
  have "length (first_locations E FS self) \<le> length (iter_version_bases E FS self)"
    unfolding first_locations_def expand_paths_def
    using length_concat_option_list[of "\<lambda>x. first_or_None (entry_pythons FS (pe_path (snd x)))"
            "iter_version_bases E FS self"]
    by (auto simp: case_prod_unfold intro: order_trans[OF length_filter_le])
  then show "length rs \<le> length (iter_version_bases E FS self)" using S(4) by simp
  show "\<forall>k. filter (\<lambda>p. rank_key (the (as_python p)) = k) rs
                     = filter (\<lambda>p. rank_key (the (as_python p)) = k) (first_locations E FS self)"
    using S(5) by blast
next
  assume c: "any_constraint q \<and> is_dir self \<and> q_arch q \<noteq> Some []"
  obtain pythons where p: "sub_finder_all E FS q (paths self) w = (Inr pythons, w)"
    "\<forall>p \<in> set (concat pythons). \<exists>v. as_python p = Some v \<and> needs_no_probe v
        \<and> matches E v w (q\<lparr>q_debug := Some False\<rparr>) = (Inr (True, v), w)"
    using sub_finder_all_no_probe[OF assms(1), of q E "paths self" w] c by blast
  have R: "then_do (version_sort_keys E (expand_paths pythons) w) (\<lambda>keyed w2.
             case sorted_reverse keyed of Inl e \<Rightarrow> (Inl e, w2)
             | Inr s \<Rightarrow> (Inr (map fst s), w2)) = (Inr rs, w')"
    using assms(2) c p(1) by (simp add: find_all_python_versions_def then_do_def)
  have sub: "set (expand_paths pythons) \<subseteq> set (concat pythons)"
    by (auto simp: expand_paths_def)
  have res: "\<forall>p \<in> set (expand_paths pythons). \<exists>v. as_python p = Some v \<and> needs_no_probe v"
    using p(2) sub by blast
  note S = sorted_by_rank[OF res R]
  show "descending rs" by (rule S(2))
  show "\<forall>p \<in> set rs. \<exists>v. as_python p = Some v
                   \<and> matches E v w' (q\<lparr>q_debug := Some False\<rparr>) = (Inr (True, v), w')"
    using p(2) sub S(1,3) by blast
qed

text \<open>
  C3, as the code has it, for locations whose versions need no probe. Called with no
  major, minor, patch or name, \<open>find_all_python_versions\<close> returns the first executable
  with a version of every enumerated root, so at most one location per root, sorted
  descending by \<open>version_sort\<close>, locations with equal keys in root order. Called with a
  non-zero major, minor or patch or a non-empty name, on an engine that is a directory
  and with an \<open>arch\<close> that is not empty, it returns only locations whose version
  \<open>matches\<close> the predicate, sorted descending by \<open>version_sort\<close>.
\<close>

theorem find_all_python_versions_ranked:
  assumes "\<forall>d. \<forall>p \<in> set (entry_pythons FS d). resolved_without_probe p"
      and "find_all_python_versions E FS find_one self q w = (Inr rs, w')"
  shows "(q_major q = None \<and> q_minor q = None \<and> q_patch q = None \<and> q_name q = None \<longrightarrow>
            descending rs
            \<and> set rs = set (first_locations E FS self)
            \<and> length rs = length (first_locations E FS self)
            \<and> length rs \<le> length (iter_version_bases E FS self)
            \<and> (\<forall>k. filter (\<lambda>p. rank_key (the (as_python p)) = k) rs
                     = filter (\<lambda>p. rank_key (the (as_python p)) = k) (first_locations E FS self)))
       \<and> (any_constraint q \<and> is_dir self \<and> q_arch q \<noteq> Some [] \<longrightarrow>
            descending rs
            \<and> (\<forall>p \<in> set rs. \<exists>v. as_python p = Some v
                   \<and> matches E v w' (q\<lparr>q_debug := Some False\<rparr>) = (Inr (True, v), w')))"
proof -
  have "\<not> any_constraint q"
    if "q_major q = None \<and> q_minor q = None \<and> q_patch q = None \<and> q_name q = None"
    using that by (simp add: any_constraint_def truthy_int_def truthy_str_def)
  then show ?thesis
    using find_all_python_versions_general[OF assms] by blast
qed

theorem find_all_python_versions_ranked_witness:
  "resolved_without_probe python_3_10_0 \<and> resolved_without_probe pyenv_python_3_9_1
   \<and> find_all_python_versions example_env example_fs (\<lambda>e q. None) example_finder any_query
         empty_world
       = (Inr [python_3_10_0, pyenv_python_3_9_1], empty_world)
   \<and> descending [python_3_10_0, pyenv_python_3_9_1]
   \<and> length [python_3_10_0, pyenv_python_3_9_1]
       \<le> length (iter_version_bases example_env example_fs example_finder)
   \<and> find_all_python_versions example_env example_fs (\<lambda>e q. None)
         (example_finder\<lparr>paths := map snd (iter_version_bases example_env example_fs example_finder)\<rparr>)
         (any_query\<lparr>q_major := Some 3, q_minor := Some 9\<rparr>) empty_world
       = (Inr [pyenv_python_3_9_1], empty_world)
   \<and> (\<exists>v. as_python pyenv_python_3_9_1 = Some v
          \<and> matches example_env v empty_world
                (any_query\<lparr>q_major := Some 3, q_minor := Some 9, q_debug := Some False\<rparr>)
              = (Inr (True, v), empty_world))"
proof -
  have h1: "\<forall>d. \<forall>p \<in> set (entry_pythons example_fs d). resolved_without_probe p"
    by (simp add: example_fs_def resolved_without_probe_def python_3_10_0_def
        pyenv_python_3_9_1_def needs_no_probe_def release_3_9_1_def default_version_def)
  have h2: "find_all_python_versions example_env example_fs (\<lambda>e q. None) example_finder any_query
         empty_world
       = (Inr [python_3_10_0, pyenv_python_3_9_1], empty_world)" by code_simp
  have h3: "find_all_python_versions example_env example_fs (\<lambda>e q. None)
         (example_finder\<lparr>paths := map snd (iter_version_bases example_env example_fs example_finder)\<rparr>)
         (any_query\<lparr>q_major := Some 3, q_minor := Some 9\<rparr>) empty_world
       = (Inr [pyenv_python_3_9_1], empty_world)" by code_simp
  have q1: "q_major any_query = None \<and> q_minor any_query = None \<and> q_patch any_query = None
            \<and> q_name any_query = None" by code_simp
  have q2: "any_constraint (any_query\<lparr>q_major := Some 3, q_minor := Some 9\<rparr>)
      \<and> is_dir (example_finder\<lparr>paths := map snd (iter_version_bases example_env example_fs
                      example_finder)\<rparr>)
      \<and> q_arch (any_query\<lparr>q_major := Some 3, q_minor := Some 9\<rparr>) \<noteq> Some []" by code_simp
  have r: "resolved_without_probe python_3_10_0 \<and> resolved_without_probe pyenv_python_3_9_1"
    by code_simp
  show ?thesis
    using find_all_python_versions_ranked[OF h1 h2] find_all_python_versions_ranked[OF h1 h3]
      r h2 h3 q1 q2
    by simp
qed

text \<open>
  C3 as stated fails: the roots are enumerated in the order \<open>3.9.1\<close>, \<open>custom\<close>, and their
  first executables are Python 3.9.1 and Python 3.10.0 in this order; the query
  without constraints returns Python 3.10.0 before Python 3.9.1.
\<close>

theorem unfiltered_result_not_in_root_order:
  "map fst (iter_version_bases example_env example_fs example_finder)
     = [''/opt/pyenv/versions/3.9.1'', ''/opt/pyenv/versions/custom'']
   \<and> first_locations example_env example_fs example_finder = [pyenv_python_3_9_1, python_3_10_0]
   \<and> fst (find_all_python_versions example_env example_fs (\<lambda>e q. None) example_finder any_query
            empty_world)
       = Inr [python_3_10_0, pyenv_python_3_9_1]"
  by code_simp

text \<open>
  Outside the statement above: a constraint of 0 counts as no constraint, so that a
  query for minor 0 alone returns locations of minor 10 and 9.
\<close>

lemma zero_constraint_taken_for_none:
  "fst (find_all_python_versions example_env example_fs (\<lambda>e q. None) example_finder
          (any_query\<lparr>q_minor := Some 0\<rparr>) empty_world)
     = Inr [python_3_10_0, pyenv_python_3_9_1]"
  by code_simp

end
